theory Spec2Isabelle
  imports Main
begin

section \<open>Text primitives\<close>

text \<open>
  Source text is modelled as \<open>string\<close>, one \<open>char\<close> for each code unit of the text.
  The model is of ASCII text, which is what C++ sources and the patterns and names of the
  analyzer are made of: the case mappings below change the ASCII letters only.
\<close>

definition nl :: char where
  "nl = CHR 0x0A"

text \<open>The white space of \<open>\s\<close> and of \<open>String.prototype.trim\<close>.\<close>

definition isSpace :: "char \<Rightarrow> bool" where
  "isSpace c = (c \<in> set [CHR 0x09, CHR 0x0A, CHR 0x0B, CHR 0x0C, CHR 0x0D, CHR '' '', CHR 0xA0])"

text \<open>The word characters of \<open>\w\<close> and \<open>\b\<close>.\<close>

definition isWordChar :: "char \<Rightarrow> bool" where
  "isWordChar c = (c \<in> set ''abcdefghijklmnopqrstuvwxyzABCDEFGHIJKLMNOPQRSTUVWXYZ0123456789_'')"

definition isLineTerminator :: "char \<Rightarrow> bool" where
  "isLineTerminator c = (c = CHR 0x0A \<or> c = CHR 0x0D)"

definition toLowerChar :: "char \<Rightarrow> char" where
  "toLowerChar c =
     (case map_of (zip ''ABCDEFGHIJKLMNOPQRSTUVWXYZ'' ''abcdefghijklmnopqrstuvwxyz'') c of
        Some l \<Rightarrow> l
      | None \<Rightarrow> c)"

definition toLowerCase :: "string \<Rightarrow> string" where
  "toLowerCase s = map toLowerChar s"

definition startsWith :: "string \<Rightarrow> string \<Rightarrow> bool" where
  "startsWith s p = (take (length p) s = p)"

definition endsWith :: "string \<Rightarrow> string \<Rightarrow> bool" where
  "endsWith s p = (length p \<le> length s \<and> drop (length s - length p) s = p)"

text \<open>\<open>s.includes(t)\<close>: \<open>t\<close> occurs in \<open>s\<close> as a contiguous substring.\<close>

fun includesStr :: "string \<Rightarrow> string \<Rightarrow> bool" where
  "includesStr [] t = (t = [])"
| "includesStr (x # xs) t = (startsWith (x # xs) t \<or> includesStr xs t)"

text \<open>\<open>s.indexOf(t)\<close>, counting from \<open>i\<close>; \<open>-1\<close> when \<open>t\<close> does not occur.\<close>

fun indexFrom :: "int \<Rightarrow> string \<Rightarrow> string \<Rightarrow> int" where
  "indexFrom i [] t = (if t = [] then i else - 1)"
| "indexFrom i (x # xs) t = (if startsWith (x # xs) t then i else indexFrom (i + 1) xs t)"

definition indexOf :: "string \<Rightarrow> string \<Rightarrow> int" where
  "indexOf s t = indexFrom 0 s t"

text \<open>\<open>s.split(c)\<close> for a one-character separator: never empty, \<open>''''\<close> splits to \<open>['''']\<close>.\<close>

fun splitOn :: "char \<Rightarrow> string \<Rightarrow> string list" where
  "splitOn c [] = [[]]"
| "splitOn c (x # xs) =
     (if x = c then [] # splitOn c xs
      else (case splitOn c xs of [] \<Rightarrow> [[x]] | l # ls \<Rightarrow> (x # l) # ls))"

fun joinWith :: "string \<Rightarrow> string list \<Rightarrow> string" where
  "joinWith sep [] = []"
| "joinWith sep [x] = x"
| "joinWith sep (x # y # ys) = x @ sep @ joinWith sep (y # ys)"

definition trim :: "string \<Rightarrow> string" where
  "trim s = rev (dropWhile isSpace (rev (dropWhile isSpace s)))"

text \<open>\<open>xs.slice(a, b)\<close> for \<open>0 \<le> a\<close>, \<open>0 \<le> b\<close>.\<close>

definition slice :: "nat \<Rightarrow> nat \<Rightarrow> 'a list \<Rightarrow> 'a list" where
  "slice a b xs = take (b - a) (drop a xs)"

section \<open>Regular expressions\<close>

text \<open>
  The analyzer is regex-based throughout. The patterns it uses are written in the syntax
  tree below and run by a backtracking matcher with the priorities of the ECMAScript one:
  alternatives left to right, quantifiers greedy, an iteration of \<open>*\<close> that consumes
  nothing is rejected. \<open>Opt r\<close> is \<open>r?\<close>, \<open>Plus r\<close> is \<open>r+\<close>, \<open>Grp n r\<close> is the
  \<open>n\<close>-th capturing group.
\<close>

datatype cclass = Lit char | Space | WordC | NotCh char | Dot | OneOf "char list"

datatype re = Eps | Ch cclass | Bol | Eol | WordB
  | Seq re re | Alt re re | Star re | Grp nat re

record flags =
  ignoreCase :: bool
  multiline :: bool

definition noFlags :: flags where
  "noFlags = \<lparr>ignoreCase = False, multiline = False\<rparr>"

definition flagI :: flags where
  "flagI = \<lparr>ignoreCase = True, multiline = False\<rparr>"

definition flagM :: flags where
  "flagM = \<lparr>ignoreCase = False, multiline = True\<rparr>"

text \<open>A matcher state: the character before the position, the rest of the input, the captures.\<close>

type_synonym mstate = "char option \<times> string \<times> (nat \<times> string) list"

fun classMatches :: "flags \<Rightarrow> cclass \<Rightarrow> char \<Rightarrow> bool" where
  "classMatches f (Lit c) x = (if ignoreCase f then toLowerChar c = toLowerChar x else c = x)"
| "classMatches f Space x = isSpace x"
| "classMatches f WordC x = isWordChar x"
| "classMatches f (NotCh c) x = (x \<noteq> c)"
| "classMatches f Dot x = (\<not> isLineTerminator x)"
| "classMatches f (OneOf cs) x = (x \<in> set cs)"

definition atWord :: "char option \<Rightarrow> bool" where
  "atWord p = (case p of None \<Rightarrow> False | Some c \<Rightarrow> isWordChar c)"

text \<open>
  Greedy iteration: one more round first, the continuation after. Every round consumes a
  character, so the length of the rest bounds the number of rounds.
\<close>

fun starLoop :: "((mstate \<Rightarrow> 'a option) \<Rightarrow> mstate \<Rightarrow> 'a option) \<Rightarrow> (mstate \<Rightarrow> 'a option)
    \<Rightarrow> nat \<Rightarrow> mstate \<Rightarrow> 'a option" where
  "starLoop m k 0 st = k st"
| "starLoop m k (Suc n) st =
     (case m (\<lambda>st'. if length (fst (snd st')) < length (fst (snd st))
                     then starLoop m k n st' else None) st of
        Some r \<Rightarrow> Some r
      | None \<Rightarrow> k st)"

primrec rmatch :: "flags \<Rightarrow> re \<Rightarrow> (mstate \<Rightarrow> 'a option) \<Rightarrow> mstate \<Rightarrow> 'a option" where
  "rmatch f Eps k st = k st"
| "rmatch f (Ch cl) k st =
     (case st of (p, s, caps) \<Rightarrow>
        (case s of [] \<Rightarrow> None
         | x # xs \<Rightarrow> if classMatches f cl x then k (Some x, xs, caps) else None))"
| "rmatch f Bol k st =
     (case st of (p, s, caps) \<Rightarrow>
        if (case p of None \<Rightarrow> True | Some c \<Rightarrow> multiline f \<and> isLineTerminator c)
        then k st else None)"
| "rmatch f Eol k st =
     (case st of (p, s, caps) \<Rightarrow>
        if (case s of [] \<Rightarrow> True | x # _ \<Rightarrow> multiline f \<and> isLineTerminator x)
        then k st else None)"
| "rmatch f WordB k st =
     (case st of (p, s, caps) \<Rightarrow>
        if atWord p \<noteq> atWord (case s of [] \<Rightarrow> None | x # _ \<Rightarrow> Some x) then k st else None)"
| "rmatch f (Seq a b) k st = rmatch f a (rmatch f b k) st"
| "rmatch f (Alt a b) k st =
     (case rmatch f a k st of Some r \<Rightarrow> Some r | None \<Rightarrow> rmatch f b k st)"
| "rmatch f (Star a) k st = starLoop (rmatch f a) k (length (fst (snd st))) st"
| "rmatch f (Grp n a) k st =
     rmatch f a (\<lambda>st'. case st' of (p', s', caps') \<Rightarrow>
        k (p', s', (n, take (length (fst (snd st)) - length s') (fst (snd st))) # caps')) st"

definition lit :: "string \<Rightarrow> re" where
  "lit s = foldr (\<lambda>c r. Seq (Ch (Lit c)) r) s Eps"

definition Opt :: "re \<Rightarrow> re" where
  "Opt r = Alt r Eps"

definition Plus :: "re \<Rightarrow> re" where
  "Plus r = Seq r (Star r)"

definition seqs :: "re list \<Rightarrow> re" where
  "seqs rs = foldr Seq rs Eps"

text \<open>
  A match: where it starts, what it covers, the character before its end, the input after
  it, and its captures.
\<close>

record rmatch_result =
  m_index :: nat
  m_text :: string
  m_prev :: "char option"
  m_rest :: string
  m_caps :: "(nat \<times> string) list"

text \<open>
  \<open>re.exec(s)\<close> from a position: the leftmost start at which the pattern matches. \<open>p\<close> is
  the character before \<open>s\<close>, \<open>i\<close> the index of \<open>s\<close> in the whole input.
\<close>

fun reSearch :: "flags \<Rightarrow> re \<Rightarrow> char option \<Rightarrow> string \<Rightarrow> nat \<Rightarrow> rmatch_result option" where
  "reSearch f r p s i =
     (case rmatch f r Some (p, s, []) of
        Some (p', s', caps) \<Rightarrow>
          Some \<lparr>m_index = i, m_text = take (length s - length s') s, m_prev = p',
                m_rest = s', m_caps = caps\<rparr>
      | None \<Rightarrow> (case s of [] \<Rightarrow> None | x # xs \<Rightarrow> reSearch f r (Some x) xs (Suc i)))"

text \<open>\<open>s.match(re)\<close> and \<open>s.search(re)\<close> of a whole string, and \<open>re.test(s)\<close> with \<open>lastIndex = 0\<close>.\<close>

definition reExec :: "flags \<Rightarrow> re \<Rightarrow> string \<Rightarrow> rmatch_result option" where
  "reExec f r s = reSearch f r None s 0"

definition reTest :: "flags \<Rightarrow> re \<Rightarrow> string \<Rightarrow> bool" where
  "reTest f r s = (reExec f r s \<noteq> None)"

definition group :: "rmatch_result \<Rightarrow> nat \<Rightarrow> string option" where
  "group m n = map_of (m_caps m) n"

text \<open>
  The loop \<open>while ((m = re.exec(s)) !== null)\<close> of a global pattern: each search resumes
  where the last match ended. The loop advances because the match consumed input; the
  patterns it is run with start with a literal, so their matches always do.
\<close>

fun execAll :: "flags \<Rightarrow> re \<Rightarrow> char option \<Rightarrow> string \<Rightarrow> nat \<Rightarrow> rmatch_result list" where
  "execAll f r p s i =
     (case reSearch f r p s i of
        None \<Rightarrow> []
      | Some m \<Rightarrow>
          if length (m_rest m) < length s
          then m # execAll f r (m_prev m) (m_rest m) (m_index m + length (m_text m))
          else [m])"

text \<open>\<open>s.replace(re, '''')\<close> for a pattern without the global flag: the first match is removed.\<close>

definition removeFirst :: "flags \<Rightarrow> re \<Rightarrow> string \<Rightarrow> string" where
  "removeFirst f r s =
     (case reExec f r s of None \<Rightarrow> s | Some m \<Rightarrow> take (m_index m) s @ m_rest m)"

section \<open>Data model\<close>

datatype Visibility = Public | Protected | Private

record ParameterInfo =
  param_name :: string
  param_type :: string
  param_defaultValue :: "string option"

record MethodInfo =
  method_name :: string
  method_returnType :: string
  method_parameters :: "ParameterInfo list"
  method_isVirtual :: bool
  method_isOverride :: bool
  method_visibility :: Visibility
  method_comments :: "string list"
  method_line :: nat

record PropertyInfo =
  prop_name :: string
  prop_type :: string
  prop_visibility :: Visibility
  prop_comments :: "string list"
  prop_line :: nat

record ClassInfo =
  ci_name :: string
  ci_file :: string
  ci_line :: nat
  ci_superclasses :: "string list"
  ci_interfaces :: "string list"
  ci_methods :: "MethodInfo list"
  ci_properties :: "PropertyInfo list"
  ci_comments :: "string list"

record CodeReference =
  ref_file :: string
  ref_line :: nat
  ref_column :: int
  ref_context :: string

datatype ClassHierarchy =
  ClassHierarchy (h_className: string) (h_superclasses: "ClassHierarchy list")
    (h_interfaces: "string list")

record SubsystemInfo =
  sub_name :: string
  sub_mainClasses :: "string list"
  sub_keyFeatures :: "string list"
  sub_dependencies :: "string list"
  sub_sourceFiles :: "string list"

record ApiReference =
  api_className :: string
  api_description :: string
  api_syntax :: string
  api_examples :: "string list"
  api_remarks :: "string list"
  api_relatedClasses :: "string list"
  api_category :: string
  api_module :: string
  api_version :: string

text \<open>The errors the analyzer throws, one constructor for each message.\<close>

datatype error =
    AnalyzerNotInitialized
  | InvalidEnginePathMissing
  | InvalidEnginePathNoSource
  | InvalidCustomPath
  | NoValidSearchPath
  | ClassNotFound string
  | UnrealPathNotConfigured
  | UnknownSubsystem string
  | PathArgumentTypeError
  | SubsystemDirectoryNotFound string

text \<open>
  The file system and the \<open>glob\<close> and \<open>path\<close> libraries are the analyzer's surroundings:
  \<open>readFileSync\<close> is \<open>None\<close> where the read throws, \<open>glob pattern cwd ignore\<close> lists the
  absolute paths found under \<open>cwd\<close>.
\<close>

record env =
  existsSync :: "string \<Rightarrow> bool"
  readFileSync :: "string \<Rightarrow> string option"
  glob :: "string \<Rightarrow> string \<Rightarrow> string list \<Rightarrow> string list"
  pathJoin :: "string list \<Rightarrow> string"
  pathSep :: char

text \<open>The fields of \<open>UnrealCodeAnalyzer\<close>. The caches are \<open>Map\<close>s: keys in insertion order.\<close>

record analyzer =
  unrealPath :: "string option"
  customPath :: "string option"
  classCache :: "(string \<times> ClassInfo) list"
  apiCache :: "(string \<times> ApiReference) list"
  initialized :: bool

definition newAnalyzer :: analyzer where
  "newAnalyzer = \<lparr>unrealPath = None, customPath = None, classCache = [], apiCache = [],
     initialized = False\<rparr>"

text \<open>\<open>Map.prototype.set\<close>: a present key keeps its place, a new key goes last.\<close>

fun mapSet :: "'k \<Rightarrow> 'v \<Rightarrow> ('k \<times> 'v) list \<Rightarrow> ('k \<times> 'v) list" where
  "mapSet k v [] = [(k, v)]"
| "mapSet k v ((k', v') # kvs) = (if k' = k then (k, v) # kvs else (k', v') # mapSet k v kvs)"

definition initialize :: "env \<Rightarrow> string \<Rightarrow> analyzer \<Rightarrow> error + analyzer" where
  "initialize e enginePath st =
     (if \<not> existsSync e enginePath then Inl InvalidEnginePathMissing
      else if \<not> existsSync e (pathJoin e [enginePath, ''Engine''])
            \<and> \<not> existsSync e (pathJoin e [enginePath, ''Source''])
      then Inl InvalidEnginePathNoSource
      else Inr (st\<lparr>unrealPath := Some enginePath, initialized := True\<rparr>))"

definition initializeCustomCodebase :: "env \<Rightarrow> string \<Rightarrow> analyzer \<Rightarrow> error + analyzer" where
  "initializeCustomCodebase e path st =
     (if \<not> existsSync e path then Inl InvalidCustomPath
      else Inr (st\<lparr>customPath := Some path, initialized := True\<rparr>))"

section \<open>Class extraction\<close>

text \<open>
  The class name is spliced into the pattern source. A class name is made of word
  characters, and such a name stands for itself in a pattern: \<open>lit cn\<close>.
\<close>

definition uclassPrefix :: re where
  "uclassPrefix = Opt (seqs [lit ''UCLASS'', Star (Ch Space), Ch (Lit (CHR ''('')),
     Star (Ch (NotCh (CHR '')''))), Ch (Lit (CHR '')'')), Star (Ch Space)])"

definition apiMacro :: re where
  "apiMacro = Opt (seqs [Plus (Ch WordC), lit ''_API'', Plus (Ch Space)])"

definition classDefPattern :: "string \<Rightarrow> re" where
  "classDefPattern cn = seqs [Bol, Star (Ch Space), uclassPrefix,
     lit ''class'', Plus (Ch Space), apiMacro,
     lit cn, Star (Ch Space), Opt (lit ''final''), Star (Ch Space),
     Opt (seqs [Ch (Lit (CHR '':'')), Star (Ch Space), Grp 1 (Plus (Ch Dot))])]"

definition bracePattern :: re where
  "bracePattern = seqs [Star (Ch Space), Ch (Lit (CHR ''{'')), Star (Ch Dot), Eol]"

definition basePattern :: re where
  "basePattern = seqs [Alt (lit ''public'') (Alt (lit ''private'') (lit ''protected'')),
     Plus (Ch Space), Grp 1 (Plus (Ch WordC))]"

definition typeText :: re where
  "typeText = seqs [Plus (Ch WordC),
     Opt (seqs [Ch (Lit (CHR ''<'')), Plus (Ch (NotCh (CHR ''>''))), Ch (Lit (CHR ''>''))]),
     Opt (seqs [Star (Ch Space), Ch (OneOf ''*&'')])]"

definition methodPattern :: re where
  "methodPattern = seqs [Bol, Star (Ch Space),
     Opt (seqs [lit ''UFUNCTION'', Star (Ch Space), Ch (Lit (CHR ''('')),
                Star (Ch (NotCh (CHR '')''))), Ch (Lit (CHR '')'')), Star (Ch Space)]),
     Opt (seqs [lit ''virtual'', Plus (Ch Space)]),
     Opt (seqs [lit ''static'', Plus (Ch Space)]),
     apiMacro,
     Grp 1 typeText, Plus (Ch Space), Grp 2 (Plus (Ch WordC)), Star (Ch Space),
     Ch (Lit (CHR ''('')), Star (Ch (NotCh (CHR '')''))), Ch (Lit (CHR '')'')),
     Star (Ch Space), Opt (lit ''const''), Star (Ch Space), Opt (lit ''override'')]"

definition propPattern :: re where
  "propPattern = seqs [Bol, Star (Ch Space), lit ''UPROPERTY'', Star (Ch Space),
     Ch (Lit (CHR ''('')), Star (Ch (NotCh (CHR '')''))), Ch (Lit (CHR '')'')),
     Star (Ch Space), Opt (Ch (Lit nl)), Star (Ch Space),
     Grp 1 typeText, Plus (Ch Space), Grp 2 (Plus (Ch WordC))]"

text \<open>The text of a group; a group that took no part in the match gives the empty string.\<close>

definition groupText :: "rmatch_result \<Rightarrow> nat \<Rightarrow> string" where
  "groupText m n = (case group m n of None \<Rightarrow> [] | Some g \<Rightarrow> g)"

text \<open>The first line that matches the definition pattern: its number and its inheritance part.\<close>

fun findClassLine :: "string \<Rightarrow> nat \<Rightarrow> string list \<Rightarrow> (nat \<times> string) option" where
  "findClassLine cn i [] = None"
| "findClassLine cn i (l # ls) =
     (case reExec flagI (classDefPattern cn) l of
        Some m \<Rightarrow> Some (i + 1, groupText m 1)
      | None \<Rightarrow> findClassLine cn (i + 1) ls)"

definition parseBase :: "string \<Rightarrow> string option" where
  "parseBase baseClass =
     (case reExec noFlags basePattern baseClass of
        None \<Rightarrow> None
      | Some m \<Rightarrow> Some (groupText m 1))"

definition isInterfaceName :: "string \<Rightarrow> bool" where
  "isInterfaceName baseName =
     (startsWith baseName ''I'' \<and> baseName \<noteq> ''IInterface'' \<and> \<not> startsWith baseName ''Int'')"

text \<open>The loop over the base classes, with the two lists it pushes to.\<close>

fun classifyBases :: "string list \<Rightarrow> string list \<times> string list \<Rightarrow> string list \<times> string list" where
  "classifyBases [] acc = acc"
| "classifyBases (baseClass # rest) (supers, ifaces) =
     (case parseBase baseClass of
        None \<Rightarrow> classifyBases rest (supers, ifaces)
      | Some baseName \<Rightarrow>
          if isInterfaceName baseName
          then classifyBases rest (supers, ifaces @ [baseName])
          else classifyBases rest (supers @ [baseName], ifaces))"

definition baseClasses :: "string \<Rightarrow> string list" where
  "baseClasses inheritancePart =
     (let cleaned = trim (removeFirst noFlags bracePattern inheritancePart)
      in if cleaned = [] then [] else map trim (splitOn (CHR '','') cleaned))"

definition parseInheritance :: "string \<Rightarrow> string list \<times> string list" where
  "parseInheritance inheritancePart = classifyBases (baseClasses inheritancePart) ([], [])"

definition skipsMethodScan :: "string \<Rightarrow> bool" where
  "skipsMethodScan l =
     (includesStr l ''DECLARE_'' \<or> includesStr l ''typedef'' \<or> includesStr l ''#define'')"

fun scanMethods :: "nat \<Rightarrow> string list \<Rightarrow> MethodInfo list" where
  "scanMethods i [] = []"
| "scanMethods i (l # ls) =
     (if skipsMethodScan l then scanMethods (i + 1) ls
      else (case reExec noFlags methodPattern l of
              None \<Rightarrow> scanMethods (i + 1) ls
            | Some m \<Rightarrow>
                \<lparr>method_name = groupText m 2, method_returnType = groupText m 1,
                 method_parameters = [], method_isVirtual = includesStr l ''virtual'',
                 method_isOverride = includesStr l ''override'', method_visibility = Public,
                 method_comments = [], method_line = i + 1\<rparr> # scanMethods (i + 1) ls))"

definition scanProperties :: "string \<Rightarrow> PropertyInfo list" where
  "scanProperties content =
     map (\<lambda>m. \<lparr>prop_name = groupText m 2, prop_type = groupText m 1, prop_visibility = Public,
               prop_comments = [],
               prop_line = length (splitOn nl (take (m_index m) content))\<rparr>)
       (execAll flagM propPattern None content 0)"

definition extractFromContent :: "string \<Rightarrow> string \<Rightarrow> string \<Rightarrow> ClassInfo option" where
  "extractFromContent filePath cn content =
     (let ls = splitOn nl content in
      case findClassLine cn 0 ls of
        None \<Rightarrow> None
      | Some (classLine, inheritancePart) \<Rightarrow>
          (case parseInheritance inheritancePart of (supers, ifaces) \<Rightarrow>
             Some \<lparr>ci_name = cn, ci_file = filePath, ci_line = classLine,
                   ci_superclasses = supers, ci_interfaces = ifaces,
                   ci_methods = take 100 (scanMethods 0 ls),
                   ci_properties = take 100 (scanProperties content), ci_comments = []\<rparr>))"

text \<open>A file that cannot be read gives \<open>null\<close>, as a file without the class does.\<close>

definition extractClassInfoWithRegex :: "env \<Rightarrow> string \<Rightarrow> string \<Rightarrow> ClassInfo option" where
  "extractClassInfoWithRegex e filePath cn =
     (case readFileSync e filePath of
        None \<Rightarrow> None
      | Some content \<Rightarrow> extractFromContent filePath cn content)"

section \<open>Class resolution\<close>

text \<open>
  A path in a condition, as in \<open>if (this.customPath)\<close>: \<open>null\<close> and the empty string are
  falsy and count as not set.
\<close>

definition configured :: "string option \<Rightarrow> string list" where
  "configured p = (case p of None \<Rightarrow> [] | Some s \<Rightarrow> if s = [] then [] else [s])"

text \<open>The calls \<open>analyzeClass\<close> makes to the file system, in order.\<close>

datatype fs_call = Exists string | Glob string string | Read string

definition ueDirs :: "env \<Rightarrow> string \<Rightarrow> string list" where
  "ueDirs e up = [pathJoin e [up, ''Engine/Source/Runtime''],
     pathJoin e [up, ''Engine/Source/Editor''], pathJoin e [up, ''Source/Runtime''],
     pathJoin e [up, ''Source''], up]"

definition classSearchPaths :: "env \<Rightarrow> analyzer \<Rightarrow> string list" where
  "classSearchPaths e st =
     configured (customPath st)
     @ concat (map (\<lambda>up. filter (existsSync e) (ueDirs e up)) (configured (unrealPath st)))"

definition classSearchCalls :: "env \<Rightarrow> analyzer \<Rightarrow> fs_call list" where
  "classSearchCalls e st =
     concat (map (\<lambda>up. map Exists (ueDirs e up)) (configured (unrealPath st)))"

definition classTestPattern :: "string \<Rightarrow> re" where
  "classTestPattern cn = seqs [WordB, lit ''class'', Plus (Ch Space), apiMacro,
     lit cn, Star (Ch Space), Opt (lit ''final''), Star (Ch Space),
     Alt (Ch (Lit (CHR '':''))) (Ch (Lit (CHR ''{'')))]"

text \<open>
  The scan of the files of one search path: the first file that passes the cheap test and
  yields a record ends it. The second component lists the reads, the one of the scan and
  the one of the extraction.
\<close>

fun scanFiles :: "env \<Rightarrow> string \<Rightarrow> string list \<Rightarrow> ClassInfo option \<times> fs_call list" where
  "scanFiles e cn [] = (None, [])"
| "scanFiles e cn (f # fs) =
     (case readFileSync e f of
        None \<Rightarrow> (case scanFiles e cn fs of (r, calls) \<Rightarrow> (r, Read f # calls))
      | Some content \<Rightarrow>
          if reTest flagI (classTestPattern cn) content
          then (case extractClassInfoWithRegex e f cn of
                  Some classInfo \<Rightarrow> (Some classInfo, [Read f, Read f])
                | None \<Rightarrow>
                    (case scanFiles e cn fs of (r, calls) \<Rightarrow> (r, Read f # Read f # calls)))
          else (case scanFiles e cn fs of (r, calls) \<Rightarrow> (r, Read f # calls)))"

definition headerGlob :: "env \<Rightarrow> string \<Rightarrow> string list" where
  "headerGlob e searchPath =
     glob e ''**/*.h'' searchPath [''**/*.generated.h'', ''**/Intermediate/**'']"

fun scanPaths :: "env \<Rightarrow> string \<Rightarrow> string list \<Rightarrow> ClassInfo option \<times> fs_call list" where
  "scanPaths e cn [] = (None, [])"
| "scanPaths e cn (searchPath # rest) =
     (case scanFiles e cn (headerGlob e searchPath) of
        (Some classInfo, calls) \<Rightarrow> (Some classInfo, Glob ''**/*.h'' searchPath # calls)
      | (None, calls) \<Rightarrow>
          (case scanPaths e cn rest of
             (r, calls') \<Rightarrow> (r, Glob ''**/*.h'' searchPath # calls @ calls')))"

text \<open>
  \<open>analyzeClass\<close>: the result or the error thrown, the analyzer afterwards, and the calls
  made to the file system.
\<close>

definition analyzeClass ::
    "env \<Rightarrow> analyzer \<Rightarrow> string \<Rightarrow> (error + ClassInfo) \<times> analyzer \<times> fs_call list" where
  "analyzeClass e st cn =
     (if \<not> initialized st then (Inl AnalyzerNotInitialized, st, [])
      else (case map_of (classCache st) cn of
              Some cachedInfo \<Rightarrow> (Inr cachedInfo, st, [])
            | None \<Rightarrow>
                if classSearchPaths e st = []
                then (Inl NoValidSearchPath, st, classSearchCalls e st)
                else (case scanPaths e cn (classSearchPaths e st) of
                        (Some classInfo, calls) \<Rightarrow>
                          (Inr classInfo,
                           st\<lparr>classCache := mapSet cn classInfo (classCache st)\<rparr>,
                           classSearchCalls e st @ calls)
                      | (None, calls) \<Rightarrow>
                          (Inl (ClassNotFound cn), st, classSearchCalls e st @ calls))))"

section \<open>Class hierarchy\<close>

text \<open>
  \<open>findClassHierarchy\<close> recurses through the superclasses with nothing to stop a cycle.
  The first argument bounds the depth of the recursion; \<open>None\<close> says the bound was reached.
\<close>

fun findClassHierarchy ::
    "nat \<Rightarrow> env \<Rightarrow> analyzer \<Rightarrow> string \<Rightarrow> bool \<Rightarrow> ((error + ClassHierarchy) \<times> analyzer) option"
  and superHierarchies ::
    "nat \<Rightarrow> env \<Rightarrow> analyzer \<Rightarrow> bool \<Rightarrow> string list \<Rightarrow> (ClassHierarchy list \<times> analyzer) option"
  where
  "findClassHierarchy 0 e st cn includeInterfaces = None"
| "findClassHierarchy (Suc n) e st cn includeInterfaces =
     (case analyzeClass e st cn of
        (Inl err, st1, calls) \<Rightarrow> Some (Inl err, st1)
      | (Inr classInfo, st1, calls) \<Rightarrow>
          (case superHierarchies n e st1 includeInterfaces (ci_superclasses classInfo) of
             None \<Rightarrow> None
           | Some (hs, st2) \<Rightarrow>
               Some (Inr (ClassHierarchy (ci_name classInfo) hs
                            (if includeInterfaces then ci_interfaces classInfo else [])),
                     st2)))"
| "superHierarchies n e st includeInterfaces [] = Some ([], st)"
| "superHierarchies n e st includeInterfaces (superclass # rest) =
     (case findClassHierarchy n e st superclass includeInterfaces of
        None \<Rightarrow> None
      | Some (Inr superHierarchy, st1) \<Rightarrow>
          (case superHierarchies n e st1 includeInterfaces rest of
             None \<Rightarrow> None
           | Some (hs, st2) \<Rightarrow> Some (superHierarchy # hs, st2))
      | Some (Inl err, st1) \<Rightarrow>
          (case superHierarchies n e st1 includeInterfaces rest of
             None \<Rightarrow> None
           | Some (hs, st2) \<Rightarrow> Some (ClassHierarchy superclass [] [] # hs, st2)))"

section \<open>Reference and text search\<close>

datatype SymbolType = ClassSymbol | FunctionSymbol | VariableSymbol

text \<open>
  The identifier is spliced into the pattern source between two \<open>\b\<close>; like a class name,
  an identifier of word characters stands for itself.
\<close>

definition identifierPattern :: "string \<Rightarrow> re" where
  "identifierPattern identifier = seqs [WordB, lit identifier, WordB]"

text \<open>The line with two lines before and after it: \<open>Math.max(0, i - 2)\<close> is \<open>i - 2\<close> on \<open>nat\<close>.\<close>

definition contextAt :: "string list \<Rightarrow> nat \<Rightarrow> string" where
  "contextAt ls i = joinWith [nl] (slice (i - 2) (i + 3) ls)"

definition referenceAt :: "string \<Rightarrow> string \<Rightarrow> string list \<Rightarrow> nat \<Rightarrow> CodeReference list" where
  "referenceAt f identifier ls i =
     (if reTest noFlags (identifierPattern identifier) (ls ! i)
      then [\<lparr>ref_file = f, ref_line = i + 1,
             ref_column = indexOf (ls ! i) identifier + 1, ref_context = contextAt ls i\<rparr>]
      else [])"

definition referencesInLines :: "string \<Rightarrow> string \<Rightarrow> string list \<Rightarrow> CodeReference list" where
  "referencesInLines f identifier ls = concat (map (referenceAt f identifier ls) [0..<length ls])"

definition referencesInFile :: "env \<Rightarrow> string \<Rightarrow> string \<Rightarrow> CodeReference list" where
  "referencesInFile e identifier f =
     (case readFileSync e f of
        None \<Rightarrow> []
      | Some content \<Rightarrow> referencesInLines f identifier (splitOn nl content))"

text \<open>\<open>this.customPath || this.unrealPath\<close>, and the check that it is set.\<close>

definition referenceSearchPath :: "analyzer \<Rightarrow> string option" where
  "referenceSearchPath st =
     (case configured (customPath st) @ configured (unrealPath st) of
        [] \<Rightarrow> None
      | searchPath # _ \<Rightarrow> Some searchPath)"

definition referenceFiles :: "env \<Rightarrow> string \<Rightarrow> string list" where
  "referenceFiles e searchPath = glob e ''**/*.{h,cpp}'' searchPath [''**/Intermediate/**'']"

text \<open>The references before the cut to 100.\<close>

definition allReferences :: "env \<Rightarrow> string \<Rightarrow> string list \<Rightarrow> CodeReference list" where
  "allReferences e identifier files = concat (map (referencesInFile e identifier) files)"

definition findReferences ::
    "env \<Rightarrow> analyzer \<Rightarrow> string \<Rightarrow> SymbolType option \<Rightarrow> error + CodeReference list" where
  "findReferences e st identifier symbolType =
     (if \<not> initialized st then Inl AnalyzerNotInitialized
      else (case referenceSearchPath st of
              None \<Rightarrow> Inl NoValidSearchPath
            | Some searchPath \<Rightarrow>
                Inr (take 100 (allReferences e identifier (referenceFiles e searchPath)))))"

text \<open>
  \<open>searchCode\<close> takes the query as the pattern \<open>new RegExp(query, 'gi')\<close> stands for.
\<close>

definition isCommentLine :: "string \<Rightarrow> bool" where
  "isCommentLine l = (startsWith (trim l) ''//'' \<or> startsWith (trim l) ''/*'')"

text \<open>One round of the loop over the lines, and the loop.\<close>

definition searchLineAt :: "string \<Rightarrow> re \<Rightarrow> bool \<Rightarrow> string list \<Rightarrow> nat \<Rightarrow> CodeReference list" where
  "searchLineAt f query includeComments ls i =
     (if \<not> includeComments \<and> isCommentLine (ls ! i) then []
      else (case reExec flagI query (ls ! i) of
              None \<Rightarrow> []
            | Some m \<Rightarrow>
                [\<lparr>ref_file = f, ref_line = i + 1, ref_column = int (m_index m) + 1,
                  ref_context = contextAt ls i\<rparr>]))"

definition searchLines :: "string \<Rightarrow> re \<Rightarrow> bool \<Rightarrow> string list \<Rightarrow> CodeReference list" where
  "searchLines f query includeComments ls =
     concat (map (searchLineAt f query includeComments ls) [0..<length ls])"

definition searchFile :: "env \<Rightarrow> re \<Rightarrow> bool \<Rightarrow> string \<Rightarrow> CodeReference list" where
  "searchFile e query includeComments f =
     (case readFileSync e f of
        None \<Rightarrow> []
      | Some content \<Rightarrow> searchLines f query includeComments (splitOn nl content))"

definition isShaderSearch :: "string \<Rightarrow> bool" where
  "isShaderSearch filePattern = (includesStr filePattern ''usf'' \<or> includesStr filePattern ''ush'')"

definition shaderPaths :: "env \<Rightarrow> string \<Rightarrow> string list" where
  "shaderPaths e up =
     filter (existsSync e) [pathJoin e [up, ''Engine'', ''Shaders''], pathJoin e [up, ''Shaders'']]"

definition codeSearchPaths :: "env \<Rightarrow> analyzer \<Rightarrow> string \<Rightarrow> string list" where
  "codeSearchPaths e st filePattern =
     configured (customPath st)
     @ concat (map (\<lambda>up. up # (if isShaderSearch filePattern then shaderPaths e up else []))
         (configured (unrealPath st)))"

text \<open>\<open>[...new Set(allFiles)]\<close>: the first occurrence of each path, in order.\<close>

definition dedupe :: "'a list \<Rightarrow> 'a list" where
  "dedupe xs = fold (\<lambda>x acc. if x \<in> set acc then acc else acc @ [x]) xs []"

definition codeSearchFiles :: "env \<Rightarrow> analyzer \<Rightarrow> string \<Rightarrow> string list" where
  "codeSearchFiles e st filePattern =
     dedupe (concat (map (\<lambda>searchPath. glob e (''**/'' @ filePattern) searchPath
                            [''**/Intermediate/**''])
                       (codeSearchPaths e st filePattern)))"

text \<open>The matches before the cut to 100.\<close>

definition allMatches :: "env \<Rightarrow> re \<Rightarrow> bool \<Rightarrow> string list \<Rightarrow> CodeReference list" where
  "allMatches e query includeComments files = concat (map (searchFile e query includeComments) files)"

definition searchCode ::
    "env \<Rightarrow> analyzer \<Rightarrow> re \<Rightarrow> string \<Rightarrow> bool \<Rightarrow> error + CodeReference list" where
  "searchCode e st query filePattern includeComments =
     (if \<not> initialized st then Inl AnalyzerNotInitialized
      else if configured (customPath st) = [] \<and> configured (unrealPath st) = []
      then Inl NoValidSearchPath
      else Inr (take 100 (allMatches e query includeComments (codeSearchFiles e st filePattern))))"

section \<open>API reference\<close>

definition generateClassSyntax :: "ClassInfo \<Rightarrow> string" where
  "generateClassSyntax classInfo =
     ''class '' @ ci_name classInfo
     @ (if length (ci_superclasses classInfo) > 0
        then '' : public '' @ joinWith '', public '' (ci_superclasses classInfo) else [])"

definition determineCategory :: "ClassInfo \<Rightarrow> string" where
  "determineCategory classInfo =
     (if startsWith (ci_name classInfo) ''U'' then ''Object''
      else if startsWith (ci_name classInfo) ''A'' then ''Actor''
      else if startsWith (ci_name classInfo) ''F'' then ''Structure''
      else if list_ex (\<lambda>s. includesStr s ''Component'') (ci_superclasses classInfo)
      then ''Component''
      else ''Miscellaneous'')"

fun afterRuntime :: "string list \<Rightarrow> string option" where
  "afterRuntime [] = None"
| "afterRuntime (p # ps) =
     (if p = ''Runtime'' then (case ps of [] \<Rightarrow> None | q # _ \<Rightarrow> Some q) else afterRuntime ps)"

definition determineModule :: "env \<Rightarrow> string \<Rightarrow> string" where
  "determineModule e filePath =
     (case afterRuntime (splitOn (pathSep e) filePath) of None \<Rightarrow> ''Core'' | Some m \<Rightarrow> m)"

definition getOrCreateApiReference :: "env \<Rightarrow> analyzer \<Rightarrow> ClassInfo \<Rightarrow> ApiReference \<times> analyzer" where
  "getOrCreateApiReference e st classInfo =
     (case map_of (apiCache st) (ci_name classInfo) of
        Some apiRef \<Rightarrow> (apiRef, st)
      | None \<Rightarrow>
          (let apiRef = \<lparr>api_className = ci_name classInfo,
                 api_description = ''Class '' @ ci_name classInfo,
                 api_syntax = generateClassSyntax classInfo,
                 api_examples = [], api_remarks = [],
                 api_relatedClasses = ci_superclasses classInfo @ ci_interfaces classInfo,
                 api_category = determineCategory classInfo,
                 api_module = determineModule e (ci_file classInfo),
                 api_version = ''5.0''\<rparr>
           in (apiRef, st\<lparr>apiCache := mapSet (ci_name classInfo) apiRef (apiCache st)\<rparr>)))"

definition apiText :: "ApiReference \<Rightarrow> string" where
  "apiText apiRef =
     toLowerCase (joinWith '' '' ([api_className apiRef, api_description apiRef,
        api_category apiRef, api_module apiRef] @ api_relatedClasses apiRef))"

text \<open>The loop over the search terms, with the running score.\<close>

fun scoreTerms :: "ApiReference \<Rightarrow> string \<Rightarrow> string list \<Rightarrow> nat \<Rightarrow> nat" where
  "scoreTerms apiRef txt [] score = score"
| "scoreTerms apiRef txt (searchTerm # terms) score =
     (let s1 = (if includesStr (toLowerCase (api_className apiRef)) searchTerm then score + 10 else score);
          s2 = (if includesStr (toLowerCase (api_category apiRef)) searchTerm then s1 + 5 else s1);
          s3 = (if includesStr (toLowerCase (api_module apiRef)) searchTerm then s2 + 5 else s2);
          s4 = (if includesStr txt searchTerm then s3 + 2 else s3)
      in scoreTerms apiRef txt terms s4)"

definition calculateApiRelevance :: "ApiReference \<Rightarrow> string list \<Rightarrow> nat" where
  "calculateApiRelevance apiRef searchTerms = scoreTerms apiRef (apiText apiRef) searchTerms 0"

section \<open>Subsystems\<close>

definition subsystemDirs :: "(string \<times> string) list" where
  "subsystemDirs = [
     (''Rendering'', ''Engine/Source/Runtime/RenderCore''),
     (''Physics'', ''Engine/Source/Runtime/PhysicsCore''),
     (''Audio'', ''Engine/Source/Runtime/AudioCore''),
     (''Networking'', ''Engine/Source/Runtime/Networking''),
     (''Input'', ''Engine/Source/Runtime/InputCore''),
     (''AI'', ''Engine/Source/Runtime/AIModule''),
     (''Animation'', ''Engine/Source/Runtime/AnimationCore''),
     (''UI'', ''Engine/Source/Runtime/UMG'')]"

text \<open>
  \<open>subsystemDirs\<close> is an object literal: a lookup also finds what it inherits from
  \<open>Object.prototype\<close>, none of it a string, and \<open>path.join\<close> throws on it.
\<close>

definition objectPrototypeKeys :: "string list" where
  "objectPrototypeKeys = [''constructor'', ''toString'', ''toLocaleString'', ''valueOf'',
     ''hasOwnProperty'', ''isPrototypeOf'', ''propertyIsEnumerable'', ''__proto__'',
     ''__defineGetter__'', ''__defineSetter__'', ''__lookupGetter__'', ''__lookupSetter__'']"

definition subsystemClassPattern :: re where
  "subsystemClassPattern = seqs [WordB, lit ''class'', Plus (Ch Space), apiMacro,
     Grp 1 (Plus (Ch WordC)), Star (Ch Space), Opt (lit ''final''), Star (Ch Space),
     Ch (Lit (CHR '':''))]"

definition classesInFile :: "env \<Rightarrow> string \<Rightarrow> string list" where
  "classesInFile e f =
     (case readFileSync e f of
        None \<Rightarrow> []
      | Some content \<Rightarrow>
          map (\<lambda>m. groupText m 1) (execAll noFlags subsystemClassPattern None content 0))"

definition analyzeSubsystem :: "env \<Rightarrow> analyzer \<Rightarrow> string \<Rightarrow> error + SubsystemInfo" where
  "analyzeSubsystem e st subsystem =
     (if \<not> initialized st then Inl AnalyzerNotInitialized
      else (case configured (unrealPath st) of
              [] \<Rightarrow> Inl UnrealPathNotConfigured
            | up # _ \<Rightarrow>
                (case map_of subsystemDirs subsystem of
                   None \<Rightarrow>
                     if subsystem \<in> set objectPrototypeKeys then Inl PathArgumentTypeError
                     else Inl (UnknownSubsystem subsystem)
                 | Some subsystemDir \<Rightarrow>
                     (let fullPath = pathJoin e [up, subsystemDir] in
                      if \<not> existsSync e fullPath then Inl (SubsystemDirectoryNotFound fullPath)
                      else (let sourceFiles = glob e ''**/*.{h,cpp}'' fullPath [] in
                            Inr \<lparr>sub_name = subsystem,
                                 sub_mainClasses =
                                   concat (map (classesInFile e)
                                     (filter (\<lambda>f. endsWith f ''.h'') sourceFiles)),
                                 sub_keyFeatures = [], sub_dependencies = [],
                                 sub_sourceFiles = sourceFiles\<rparr>)))))"

section \<open>Notions used to state the properties\<close>

text \<open>The base names the loop over an inheritance clause extracts, in order.\<close>

definition baseNames :: "string \<Rightarrow> string list" where
  "baseNames inheritancePart = List.map_filter parseBase (baseClasses inheritancePart)"

text \<open>The contribution of one search term to the relevance score, field by field.\<close>

definition specTermScore :: "ApiReference \<Rightarrow> string \<Rightarrow> nat" where
  "specTermScore apiRef t =
     (if includesStr (toLowerCase (api_className apiRef)) t then 10 else 0)
     + (if includesStr (toLowerCase (api_category apiRef)) t then 5 else 0)
     + (if includesStr (toLowerCase (api_module apiRef)) t then 5 else 0)
     + (if includesStr (apiText apiRef) t then 2 else 0)"



text \<open>
  From one analyzer state to a later one: the configuration is the same, an entry of the
  cache stays, and a class name enters the cache only with the record the scan of the
  search paths finds for it.
\<close>

definition cacheGrows :: "env \<Rightarrow> analyzer \<Rightarrow> analyzer \<Rightarrow> bool" where
  "cacheGrows e st st' =
     (initialized st' = initialized st \<and> unrealPath st' = unrealPath st
      \<and> customPath st' = customPath st
      \<and> (\<forall>k. case map_of (classCache st) k of
               Some v \<Rightarrow> map_of (classCache st') k = Some v
             | None \<Rightarrow> map_of (classCache st') k = None
                 \<or> map_of (classCache st') k = fst (scanPaths e k (classSearchPaths e st))))"

text \<open>
  The inheritance graph below a class name, as \<open>analyzeClass\<close> resolves it from a state,
  has fewer than \<open>n\<close> levels: the name does not resolve, or each of its superclasses is
  settled within \<open>n - 1\<close>.
\<close>

primrec settlesWithin :: "nat \<Rightarrow> env \<Rightarrow> analyzer \<Rightarrow> string \<Rightarrow> bool" where
  "settlesWithin 0 e st s = False"
| "settlesWithin (Suc n) e st s =
     (case fst (analyzeClass e st s) of
        Inl err \<Rightarrow> True
      | Inr classInfo \<Rightarrow> list_all (settlesWithin n e st) (ci_superclasses classInfo))"

text \<open>
  The node expected for a class name: a leaf when the name does not resolve, and otherwise
  the resolved name with the nodes of its superclasses, in order, and its interfaces when
  they are asked for.
\<close>

primrec nodeFor :: "nat \<Rightarrow> env \<Rightarrow> analyzer \<Rightarrow> bool \<Rightarrow> string \<Rightarrow> ClassHierarchy" where
  "nodeFor 0 e st includeInterfaces s = ClassHierarchy s [] []"
| "nodeFor (Suc n) e st includeInterfaces s =
     (case fst (analyzeClass e st s) of
        Inl err \<Rightarrow> ClassHierarchy s [] []
      | Inr classInfo \<Rightarrow>
          ClassHierarchy (ci_name classInfo)
            (map (nodeFor n e st includeInterfaces) (ci_superclasses classInfo))
            (if includeInterfaces then ci_interfaces classInfo else []))"

text \<open>
  An ancestor and a node by position: \<open>[i, j]\<close> is superclass \<open>j\<close> of superclass \<open>i\<close>.
\<close>

fun ancestorAt :: "env \<Rightarrow> analyzer \<Rightarrow> string \<Rightarrow> nat list \<Rightarrow> string option" where
  "ancestorAt e st s [] = Some s"
| "ancestorAt e st s (i # p) =
     (case fst (analyzeClass e st s) of
        Inl err \<Rightarrow> None
      | Inr classInfo \<Rightarrow>
          if i < length (ci_superclasses classInfo)
          then ancestorAt e st (ci_superclasses classInfo ! i) p else None)"

fun nodeAt :: "ClassHierarchy \<Rightarrow> nat list \<Rightarrow> ClassHierarchy option" where
  "nodeAt h [] = Some h"
| "nodeAt h (i # p) =
     (if i < length (h_superclasses h) then nodeAt (h_superclasses h ! i) p else None)"

text \<open>A pattern every match of which consumes input.\<close>

fun consuming :: "re \<Rightarrow> bool" where
  "consuming (Ch cl) = True"
| "consuming (Seq a b) = (consuming a \<or> consuming b)"
| "consuming (Alt a b) = (consuming a \<and> consuming b)"
| "consuming (Grp n a) = consuming a"
| "consuming r = False"

section \<open>A small source tree\<close>

text \<open>
  A project root \<open>/proj\<close> and an engine root \<open>/ue\<close>, with three files; the concrete
  instances of the properties below are computed on it.
\<close>

definition fooLine :: string where
  "fooLine = ''class ENGINE_API AFoo final : public AActor, public IInterfaceX''"

definition fooHeader :: string where
  "fooHeader = ''#pragma once'' @ [nl] @ fooLine @ [nl] @ ''{'' @ [nl] @ ''};''"

definition demoFiles :: "(string \<times> string) list" where
  "demoFiles = [
     (''/proj/AFoo.h'', fooHeader),
     (''/proj/Foo.cpp'', ''// AFoo lives in AFoo.h'' @ [nl] @ ''AFoo* Make();''),
     (''/ue/Engine/Source/Runtime/Engine/UEngine.h'',
        ''class ENGINE_API UEngine : public UObject'' @ [nl] @ ''{'' @ [nl] @ ''};'')]"

definition demoGlob :: "string \<Rightarrow> string \<Rightarrow> string list \<Rightarrow> string list" where
  "demoGlob pattern cwd ignore =
     filter (\<lambda>f. startsWith f (cwd @ ''/'')
                \<and> list_ex (endsWith f)
                     (if pattern = ''**/*.h'' then [''.h'']
                      else if pattern = ''**/*.{h,cpp}'' then [''.h'', ''.cpp''] else []))
       (map fst demoFiles)"

definition demoEnv :: env where
  "demoEnv = \<lparr>existsSync = (\<lambda>p. p \<in> set [''/proj'', ''/ue'', ''/ue/Engine'',
                                              ''/ue/Engine/Source/Runtime'']),
     readFileSync = map_of demoFiles, glob = demoGlob, pathJoin = joinWith ''/'',
     pathSep = CHR ''/''\<rparr>"

definition customOnly :: analyzer where
  "customOnly = newAnalyzer\<lparr>customPath := Some ''/proj'', initialized := True\<rparr>"

definition bothRoots :: analyzer where
  "bothRoots = customOnly\<lparr>unrealPath := Some ''/ue''\<rparr>"

definition fooInfo :: ClassInfo where
  "fooInfo = \<lparr>ci_name = ''AFoo'', ci_file = ''/proj/AFoo.h'', ci_line = 2,
     ci_superclasses = [''AActor''], ci_interfaces = [''IInterfaceX''], ci_methods = [],
     ci_properties = [], ci_comments = []\<rparr>"

definition fooCached :: analyzer where
  "fooCached = customOnly\<lparr>classCache := [(''AFoo'', fooInfo)]\<rparr>"

definition engineInfo :: ClassInfo where
  "engineInfo = \<lparr>ci_name = ''UEngine'',
     ci_file = ''/ue/Engine/Source/Runtime/Engine/UEngine.h'', ci_line = 1,
     ci_superclasses = [''UObject''], ci_interfaces = [], ci_methods = [],
     ci_properties = [], ci_comments = []\<rparr>"

definition engineRef :: ApiReference where
  "engineRef = \<lparr>api_className = ''UEngine'', api_description = ''Class UEngine'',
     api_syntax = ''class UEngine : public UObject'', api_examples = [], api_remarks = [],
     api_relatedClasses = [''UObject''], api_category = ''Object'', api_module = ''Engine'',
     api_version = ''5.0''\<rparr>"

text \<open>A header with a forward declaration of the class before its definition.\<close>

definition forwardText :: string where
  "forwardText = ''class AFoo;'' @ [nl] @ fooLine"

definition forwardEnv :: env where
  "forwardEnv = demoEnv\<lparr>readFileSync :=
     (\<lambda>p. if p = ''/proj/Forward.h'' then Some forwardText else None)\<rparr>"




text \<open>
  A root \<open>/src\<close> with a chain: \<open>AChild\<close> derives from \<open>AParent\<close> and \<open>UGhost\<close>, \<open>AParent\<close>
  from \<open>UObject\<close>; neither \<open>UGhost\<close> nor \<open>UObject\<close> is defined anywhere.
\<close>

definition chainFiles :: "(string \<times> string) list" where
  "chainFiles = [
     (''/src/AChild.h'', ''class AChild : public AParent, public UGhost''),
     (''/src/AParent.h'', ''class AParent : public UObject'')]"

definition chainEnv :: env where
  "chainEnv = \<lparr>existsSync = (\<lambda>p. p = ''/src''), readFileSync = map_of chainFiles,
     glob = (\<lambda>pattern cwd ignore. if cwd = ''/src'' then map fst chainFiles else []),
     pathJoin = joinWith ''/'', pathSep = CHR ''/''\<rparr>"

definition chainRoot :: analyzer where
  "chainRoot = newAnalyzer\<lparr>customPath := Some ''/src'', initialized := True\<rparr>"

definition childInfo :: ClassInfo where
  "childInfo = \<lparr>ci_name = ''AChild'', ci_file = ''/src/AChild.h'', ci_line = 1,
     ci_superclasses = [''AParent'', ''UGhost''], ci_interfaces = [], ci_methods = [],
     ci_properties = [], ci_comments = []\<rparr>"

definition chainTree :: ClassHierarchy where
  "chainTree = ClassHierarchy ''AChild''
     [ClassHierarchy ''AParent'' [ClassHierarchy ''UObject'' [] []] [],
      ClassHierarchy ''UGhost'' [] []] []"

definition commentLines :: "string list" where
  "commentLines = [''// AFoo lives in AFoo.h'', ''AFoo* Make();'']"

section \<open>Properties of the matcher\<close>

text \<open>
  A match leaves a suffix of the input, and a proper one for a consuming pattern; so the
  \<open>exec\<close> loop over the property and subsystem patterns always advances.
\<close>

lemma starLoop_suffix:
  assumes m: "\<And>k st res. m k st = Some res
    \<Longrightarrow> \<exists>st'. k st' = Some res \<and> length (fst (snd st')) \<le> length (fst (snd st))"
  shows "starLoop m k n st = Some res
    \<Longrightarrow> \<exists>st'. k st' = Some res \<and> length (fst (snd st')) \<le> length (fst (snd st))"
proof (induction n arbitrary: st)
  case 0
  then have "k st = Some res \<and> length (fst (snd st)) \<le> length (fst (snd st))" by simp
  then show ?case by blast
next
  case (Suc n)
  let ?k' = "\<lambda>st'. if length (fst (snd st')) < length (fst (snd st))
                    then starLoop m k n st' else None"
  show ?case
  proof (cases "m ?k' st")
    case None
    with Suc.prems have "k st = Some res \<and> length (fst (snd st)) \<le> length (fst (snd st))"
      by simp
    then show ?thesis by blast
  next
    case (Some r)
    with Suc.prems have "r = res" by simp
    with Some m[of ?k' st res] obtain st1 where
      st1: "?k' st1 = Some res" "length (fst (snd st1)) \<le> length (fst (snd st))" by auto
    then have "starLoop m k n st1 = Some res" by (auto split: if_splits)
    from Suc.IH[OF this] st1(2) show ?thesis by (meson le_trans)
  qed
qed

lemma rmatch_suffix:
  "rmatch f r k st = Some res
     \<Longrightarrow> \<exists>st'. k st' = Some res \<and> length (fst (snd st')) \<le> length (fst (snd st))"
proof (induction r arbitrary: k st res)
  case Eps
  then have "k st = Some res \<and> length (fst (snd st)) \<le> length (fst (snd st))" by simp
  then show ?case by blast
next
  case (Ch cl)
  then show ?case
    by (cases st) (auto split: list.splits if_splits intro!: exI)
next
  case Bol
  then show ?case by (cases st) (auto split: if_splits)
next
  case Eol
  then show ?case by (cases st) (auto split: if_splits)
next
  case WordB
  then show ?case by (cases st) (auto split: if_splits)
next
  case (Seq a b)
  from Seq.prems have "rmatch f a (rmatch f b k) st = Some res" by simp
  from Seq.IH(1)[OF this] obtain st1 where
    "rmatch f b k st1 = Some res" "length (fst (snd st1)) \<le> length (fst (snd st))" by auto
  with Seq.IH(2)[of k st1 res] show ?case by (meson le_trans)
next
  case (Alt a b)
  then show ?case by (cases "rmatch f a k st") auto
next
  case (Star a)
  then show ?case
    using starLoop_suffix[of "rmatch f a" k "length (fst (snd st))" st res] by auto
next
  case (Grp n a)
  let ?k' = "\<lambda>st'. case st' of (p', s', caps') \<Rightarrow>
        k (p', s', (n, take (length (fst (snd st)) - length s') (fst (snd st))) # caps')"
  from Grp.prems have "rmatch f a ?k' st = Some res" by simp
  from Grp.IH[OF this] obtain st1 where
    st1: "?k' st1 = Some res" "length (fst (snd st1)) \<le> length (fst (snd st))" by auto
  then show ?case by (cases st1) (auto intro!: exI)
qed

lemma rmatch_consumes:
  "consuming r \<Longrightarrow> rmatch f r k st = Some res
     \<Longrightarrow> \<exists>st'. k st' = Some res \<and> length (fst (snd st')) < length (fst (snd st))"
proof (induction r arbitrary: k st res)
  case (Ch cl)
  then show ?case
    by (cases st) (auto split: list.splits if_splits intro!: exI)
next
  case (Seq a b)
  from Seq.prems have m: "rmatch f a (rmatch f b k) st = Some res" by simp
  show ?case
  proof (cases "consuming a")
    case True
    from Seq.IH(1)[OF True m] obtain st1 where
      "rmatch f b k st1 = Some res" "length (fst (snd st1)) < length (fst (snd st))" by auto
    with rmatch_suffix[of f b k st1 res] show ?thesis by (meson le_less_trans)
  next
    case False
    with Seq.prems have cb: "consuming b" by simp
    from rmatch_suffix[OF m] obtain st1 where
      "rmatch f b k st1 = Some res" "length (fst (snd st1)) \<le> length (fst (snd st))" by auto
    with Seq.IH(2)[OF cb, of k st1 res] show ?thesis by (meson less_le_trans)
  qed
next
  case (Alt a b)
  then show ?case by (cases "rmatch f a k st") auto
next
  case (Grp n a)
  let ?k' = "\<lambda>st'. case st' of (p', s', caps') \<Rightarrow>
        k (p', s', (n, take (length (fst (snd st)) - length s') (fst (snd st))) # caps')"
  from Grp.prems have "rmatch f a ?k' st = Some res" "consuming a" by simp_all
  from Grp.IH[OF this(2) this(1)] obtain st1 where
    st1: "?k' st1 = Some res" "length (fst (snd st1)) < length (fst (snd st))" by auto
  then show ?case by (cases st1) (auto intro!: exI)
qed simp_all

lemma reSearch_consumes:
  "consuming r \<Longrightarrow> reSearch f r p s i = Some m \<Longrightarrow> length (m_rest m) < length s"
proof (induction f r p s i rule: reSearch.induct)
  case (1 f r p s i)
  show ?case
  proof (cases "rmatch f r Some (p, s, [])")
    case None
    with "1.prems" obtain x xs where
      s: "s = x # xs" and "reSearch f r (Some x) xs (Suc i) = Some m"
      by (cases s) auto
    with "1.IH"[OF None s] "1.prems"(1) show ?thesis by auto
  next
    case (Some st')
    from rmatch_consumes[OF "1.prems"(1) Some]
    have "length (fst (snd st')) < length s" by auto
    with Some "1.prems"(2) show ?thesis by (cases st') auto
  qed
qed

lemma execAll_loop:
  assumes "consuming r"
  shows "execAll f r p s i =
     (case reSearch f r p s i of
        None \<Rightarrow> []
      | Some m \<Rightarrow> m # execAll f r (m_prev m) (m_rest m) (m_index m + length (m_text m)))"
  using reSearch_consumes[OF assms, of f p s i]
  by (subst execAll.simps) (auto split: option.splits)

lemma patterns_consuming: "consuming propPattern \<and> consuming subsystemClassPattern"
  by (simp add: propPattern_def subsystemClassPattern_def seqs_def)

section \<open>Properties of class extraction\<close>

lemma findClassLine_first:
  assumes "\<And>l. l \<in> set pre \<Longrightarrow> reExec flagI (classDefPattern cn) l = None"
    and "reExec flagI (classDefPattern cn) l0 = Some m"
  shows "findClassLine cn i (pre @ l0 # post) = Some (i + length pre + 1, groupText m 1)"
  using assms by (induction pre arbitrary: i) auto

lemma fooLine_match:
  "map_option (\<lambda>m. groupText m 1) (reExec flagI (classDefPattern ''AFoo'')
      ''class ENGINE_API AFoo final : public AActor, public IInterfaceX'')
    = Some ''public AActor, public IInterfaceX''"
  by code_simp

lemma fooLine_bases:
  "parseInheritance ''public AActor, public IInterfaceX'' = ([''AActor''], [''IInterfaceX''])"
  by code_simp

lemma fooHeader_lines: "splitOn nl fooHeader = [''#pragma once''] @ fooLine # [''{'', ''};'']"
  by code_simp

lemma pragma_no_match: "\<not> reTest flagI (classDefPattern ''AFoo'') ''#pragma once''"
  by code_simp

text \<open>
  C1, as amended. For a header file in which
  \<open>class ENGINE_API AFoo final : public AActor, public IInterfaceX\<close> is the first line that
  matches the class definition pattern for \<open>AFoo\<close>, class extraction for the target name
  \<open>AFoo\<close> succeeds and yields the superclass list \<open>[AActor]\<close> and the interface list
  \<open>[IInterfaceX]\<close>; the definition line is the number of that line.
\<close>

theorem extraction_first_match:
  assumes "readFileSync e path = Some content"
    and "splitOn nl content
           = pre @ ''class ENGINE_API AFoo final : public AActor, public IInterfaceX'' # post"
    and "\<forall>l \<in> set pre. \<not> reTest flagI (classDefPattern ''AFoo'') l"
  shows "\<exists>info. extractClassInfoWithRegex e path ''AFoo'' = Some info
      \<and> ci_superclasses info = [''AActor''] \<and> ci_interfaces info = [''IInterfaceX'']
      \<and> ci_line info = length pre + 1"
proof -
  obtain m where m: "reExec flagI (classDefPattern ''AFoo'')
      ''class ENGINE_API AFoo final : public AActor, public IInterfaceX'' = Some m"
    and g: "groupText m 1 = ''public AActor, public IInterfaceX''"
    using fooLine_match by (auto simp: map_option_case split: option.splits)
  have "findClassLine ''AFoo'' 0 (splitOn nl content)
      = Some (0 + length pre + 1, ''public AActor, public IInterfaceX'')"
    unfolding assms(2) using findClassLine_first[OF _ m, of pre 0 post] assms(3) g
    by (simp add: reTest_def)
  then show ?thesis
    using assms(1) fooLine_bases
    by (simp add: extractClassInfoWithRegex_def extractFromContent_def)
qed

text \<open>An instance: the header \<open>/proj/AFoo.h\<close>, where the line is the second one.\<close>

theorem extraction_first_match_witness:
  "readFileSync demoEnv ''/proj/AFoo.h'' = Some fooHeader
   \<and> splitOn nl fooHeader = [''#pragma once''] @ fooLine # [''{'', ''};'']
   \<and> (\<exists>info. extractClassInfoWithRegex demoEnv ''/proj/AFoo.h'' ''AFoo'' = Some info
         \<and> ci_superclasses info = [''AActor''] \<and> ci_interfaces info = [''IInterfaceX'']
         \<and> ci_line info = 2)"
proof -
  have r: "readFileSync demoEnv ''/proj/AFoo.h'' = Some fooHeader"
    by (simp add: demoEnv_def demoFiles_def)
  have l: "splitOn nl fooHeader
      = [''#pragma once'']
        @ ''class ENGINE_API AFoo final : public AActor, public IInterfaceX'' # [''{'', ''};'']"
    using fooHeader_lines by (simp add: fooLine_def)
  have p: "\<forall>l \<in> set [''#pragma once'']. \<not> reTest flagI (classDefPattern ''AFoo'') l"
    using pragma_no_match by simp
  from extraction_first_match[OF r l p] r fooHeader_lines show ?thesis
    by (simp add: numeral_2_eq_2)
qed

text \<open>
  The claim as stated fails where an earlier line matches the pattern: in a header with
  the forward declaration \<open>class AFoo;\<close> before the line, the first line wins and both
  lists are empty.
\<close>

theorem extraction_forward_declaration:
  "splitOn nl forwardText
     = [''class AFoo;'', ''class ENGINE_API AFoo final : public AActor, public IInterfaceX'']
   \<and> extractClassInfoWithRegex forwardEnv ''/proj/Forward.h'' ''AFoo''
     = Some \<lparr>ci_name = ''AFoo'', ci_file = ''/proj/Forward.h'', ci_line = 1,
             ci_superclasses = [], ci_interfaces = [], ci_methods = [], ci_properties = [],
             ci_comments = []\<rparr>"
  by code_simp

lemma classifyBases_filter:
  "classifyBases bs (su, ifs) =
     (su @ filter (\<lambda>n. \<not> isInterfaceName n) (List.map_filter parseBase bs),
      ifs @ filter isInterfaceName (List.map_filter parseBase bs))"
  by (induction bs arbitrary: su ifs) (auto simp: List.map_filter_simps split: option.splits)

lemma isInterfaceName_iff:
  "isInterfaceName n
     = ((\<exists>r. n = CHR ''I'' # r) \<and> n \<noteq> ''IInterface'' \<and> \<not> (\<exists>r. n = ''Int'' @ r))"
proof -
  have a: "(take (length ''I'') n = ''I'') = (\<exists>r. n = CHR ''I'' # r)"
    by (cases n) auto
  have b: "(take (length ''Int'') n = ''Int'') = (\<exists>r. n = ''Int'' @ r)"
  proof
    assume "take (length ''Int'') n = ''Int''"
    then have "n = ''Int'' @ drop (length ''Int'') n" by (metis append_take_drop_id)
    then show "\<exists>r. n = ''Int'' @ r" ..
  next
    assume "\<exists>r. n = ''Int'' @ r"
    then show "take (length ''Int'') n = ''Int''" by auto
  qed
  show ?thesis unfolding isInterfaceName_def startsWith_def a b ..
qed

lemma intbox_bases:
  "parseInheritance ''public IntBox, public IInterface, public IInterfaceX''
     = ([''IntBox'', ''IInterface''], [''IInterfaceX''])"
  by code_simp

text \<open>
  C2. The base names extracted from an inheritance clause are split in order: a name goes
  to the interfaces if and only if it starts with \<open>I\<close>, is not \<open>IInterface\<close> and does not
  start with \<open>Int\<close>, and to the superclasses otherwise. \<open>IntBox\<close> and \<open>IInterface\<close> are
  superclasses.
\<close>

theorem base_classification:
  "parseInheritance part
     = (filter (\<lambda>n. \<not> isInterfaceName n) (baseNames part),
        filter isInterfaceName (baseNames part))
   \<and> isInterfaceName n
     = ((\<exists>r. n = CHR ''I'' # r) \<and> n \<noteq> ''IInterface'' \<and> \<not> (\<exists>r. n = ''Int'' @ r))
   \<and> \<not> isInterfaceName ''IntBox'' \<and> \<not> isInterfaceName ''IInterface''
   \<and> parseInheritance ''public IntBox, public IInterface, public IInterfaceX''
     = ([''IntBox'', ''IInterface''], [''IInterfaceX''])"
proof -
  have "parseInheritance part
     = (filter (\<lambda>n. \<not> isInterfaceName n) (baseNames part),
        filter isInterfaceName (baseNames part))"
    by (simp add: parseInheritance_def classifyBases_filter baseNames_def)
  moreover have "\<not> isInterfaceName ''IntBox''" "\<not> isInterfaceName ''IInterface''"
    by (simp_all add: isInterfaceName_def startsWith_def)
  ultimately show ?thesis using isInterfaceName_iff[of n] intbox_bases by simp
qed

section \<open>Properties of class resolution\<close>

lemma map_of_mapSet: "map_of (mapSet k v kvs) k = Some v"
  by (induction kvs) auto

lemma map_of_mapSet_other: "k' \<noteq> k \<Longrightarrow> map_of (mapSet k v kvs) k' = map_of kvs k'"
  by (induction kvs) auto

text \<open>
  C5. When \<open>analyzeClass\<close> returns a record for a class name, the next call for that name
  returns the same record, leaves the analyzer as it is, and makes no call to the file
  system: no directory listing and no file read.
\<close>

theorem analyzeClass_cached:
  assumes "analyzeClass e st cn = (Inr classInfo, st', calls)"
  shows "analyzeClass e st' cn = (Inr classInfo, st', [])"
proof -
  from assms have init: "initialized st"
    by (auto simp: analyzeClass_def split: if_splits)
  show ?thesis
  proof (cases "map_of (classCache st) cn")
    case (Some cached)
    with assms init show ?thesis by (auto simp: analyzeClass_def)
  next
    case None
    with assms init have "st' = st\<lparr>classCache := mapSet cn classInfo (classCache st)\<rparr>"
      by (auto simp: analyzeClass_def split: if_splits prod.splits option.splits)
    with init show ?thesis by (simp add: analyzeClass_def map_of_mapSet)
  qed
qed

lemma demo_analyze_foo:
  "analyzeClass demoEnv customOnly ''AFoo''
     = (Inr fooInfo, fooCached,
        [Glob ''**/*.h'' ''/proj'', Read ''/proj/AFoo.h'', Read ''/proj/AFoo.h''])"
  by code_simp

text \<open>An instance: the first call scans \<open>/proj\<close> and reads the header, the second does neither.\<close>

theorem analyzeClass_cached_witness:
  "analyzeClass demoEnv customOnly ''AFoo''
     = (Inr fooInfo, fooCached,
        [Glob ''**/*.h'' ''/proj'', Read ''/proj/AFoo.h'', Read ''/proj/AFoo.h''])
   \<and> analyzeClass demoEnv fooCached ''AFoo'' = (Inr fooInfo, fooCached, [])"
  using analyzeClass_cached[OF demo_analyze_foo] demo_analyze_foo by simp

section \<open>Properties of the class hierarchy\<close>

lemma cacheGrows_refl: "cacheGrows e st st"
  by (simp add: cacheGrows_def split: option.splits)

lemma cacheGrows_paths: "cacheGrows e st st' \<Longrightarrow> classSearchPaths e st' = classSearchPaths e st"
  by (simp add: cacheGrows_def classSearchPaths_def)

lemma cacheGrows_entry:
  "cacheGrows e st st' \<Longrightarrow>
     (case map_of (classCache st) k of
        Some v \<Rightarrow> map_of (classCache st') k = Some v
      | None \<Rightarrow> map_of (classCache st') k = None
          \<or> map_of (classCache st') k = fst (scanPaths e k (classSearchPaths e st)))"
  by (simp add: cacheGrows_def)

lemma cacheGrows_trans:
  assumes "cacheGrows e a b" and "cacheGrows e b c"
  shows "cacheGrows e a c"
proof -
  have p: "classSearchPaths e b = classSearchPaths e a"
    using assms(1) by (rule cacheGrows_paths)
  have "case map_of (classCache a) k of
          Some v \<Rightarrow> map_of (classCache c) k = Some v
        | None \<Rightarrow> map_of (classCache c) k = None
            \<or> map_of (classCache c) k = fst (scanPaths e k (classSearchPaths e a))" for k
    using cacheGrows_entry[OF assms(1), of k] cacheGrows_entry[OF assms(2), of k] p
    by (auto split: option.splits)
  then show ?thesis using assms by (simp add: cacheGrows_def)
qed

lemma analyzeClass_grows:
  assumes "analyzeClass e st cn = (r, st', calls)"
  shows "cacheGrows e st st'"
proof (cases "st' = st")
  case True
  then show ?thesis by (simp add: cacheGrows_refl)
next
  case False
  with assms obtain classInfo calls' where
    sc: "scanPaths e cn (classSearchPaths e st) = (Some classInfo, calls')"
    and c: "map_of (classCache st) cn = None"
    and st': "st' = st\<lparr>classCache := mapSet cn classInfo (classCache st)\<rparr>"
    by (auto simp: analyzeClass_def split: if_splits option.splits prod.splits)
  have "case map_of (classCache st) k of
          Some v \<Rightarrow> map_of (classCache st') k = Some v
        | None \<Rightarrow> map_of (classCache st') k = None
            \<or> map_of (classCache st') k = fst (scanPaths e k (classSearchPaths e st))" for k
  proof (cases "k = cn")
    case True
    with sc c st' show ?thesis by (simp add: map_of_mapSet)
  next
    case False
    with st' show ?thesis by (simp add: map_of_mapSet_other split: option.splits)
  qed
  then have "\<forall>k. case map_of (classCache st) k of
          Some v \<Rightarrow> map_of (classCache st') k = Some v
        | None \<Rightarrow> map_of (classCache st') k = None
            \<or> map_of (classCache st') k = fst (scanPaths e k (classSearchPaths e st))"
    by blast
  moreover have "initialized st' = initialized st" "unrealPath st' = unrealPath st"
    "customPath st' = customPath st"
    by (simp_all add: st')
  ultimately show ?thesis unfolding cacheGrows_def by blast
qed

text \<open>In a later state a class name resolves as it did before: to the same record or error.\<close>

lemma analyzeClass_stable:
  assumes "cacheGrows e st st'"
  shows "fst (analyzeClass e st' s) = fst (analyzeClass e st s)"
proof (cases "initialized st")
  case False
  with assms show ?thesis by (simp add: analyzeClass_def cacheGrows_def)
next
  case True
  then have i': "initialized st'" using assms by (simp add: cacheGrows_def)
  have p: "classSearchPaths e st' = classSearchPaths e st"
    using assms by (rule cacheGrows_paths)
  show ?thesis
  proof (cases "map_of (classCache st) s")
    case (Some v)
    with cacheGrows_entry[OF assms, of s] True i' show ?thesis
      by (simp add: analyzeClass_def)
  next
    case None
    obtain found calls where sc: "scanPaths e s (classSearchPaths e st) = (found, calls)"
      by (cases "scanPaths e s (classSearchPaths e st)") auto
    have e: "classSearchPaths e st = [] \<Longrightarrow> found = None"
      using sc by auto
    from cacheGrows_entry[OF assms, of s] None sc
    have "map_of (classCache st') s = None \<or> map_of (classCache st') s = found" by simp
    then show ?thesis
      using None True i' p sc e
      by (cases found) (auto simp: analyzeClass_def)
  qed
qed

lemma analyzeClass_fail_state: "analyzeClass e st s = (Inl err, st', calls) \<Longrightarrow> st' = st"
  by (auto simp: analyzeClass_def split: if_splits option.splits prod.splits)

lemma supers_grows:
  assumes "\<And>st cn r st'. findClassHierarchy n e st cn incl = Some (r, st')
    \<Longrightarrow> cacheGrows e st st'"
  shows "superHierarchies n e st incl ss = Some (hs, st') \<Longrightarrow> cacheGrows e st st'"
proof (induction ss arbitrary: st hs st')
  case Nil
  then show ?case by (simp add: cacheGrows_refl)
next
  case (Cons s ss)
  from Cons.prems obtain r st1 where f: "findClassHierarchy n e st s incl = Some (r, st1)"
    by (auto split: option.splits)
  with Cons.prems obtain hs' where "superHierarchies n e st1 incl ss = Some (hs', st')"
    by (cases r) (auto split: option.splits)
  then have "cacheGrows e st1 st'" by (rule Cons.IH)
  with assms[OF f] show ?case by (rule cacheGrows_trans)
qed

lemma find_grows:
  "findClassHierarchy n e st cn incl = Some (r, st') \<Longrightarrow> cacheGrows e st st'"
proof (induction n arbitrary: st cn r st')
  case 0
  then show ?case by simp
next
  case (Suc n)
  obtain res st1 calls where a: "analyzeClass e st cn = (res, st1, calls)"
    by (cases "analyzeClass e st cn") auto
  then have g: "cacheGrows e st st1" by (rule analyzeClass_grows)
  show ?case
  proof (cases res)
    case (Inl err)
    with a Suc.prems g show ?thesis by auto
  next
    case (Inr classInfo)
    with a Suc.prems obtain hs where
      "superHierarchies n e st1 incl (ci_superclasses classInfo) = Some (hs, st')"
      by (auto split: option.splits)
    then have "cacheGrows e st1 st'" using Suc.IH by (rule supers_grows[rotated])
    with g show ?thesis by (rule cacheGrows_trans)
  qed
qed

text \<open>A larger bound on the depth does not change a result that was reached.\<close>

lemma supers_bound_mono:
  assumes "\<And>st cn r. findClassHierarchy n e st cn incl = Some r
    \<Longrightarrow> findClassHierarchy (Suc n) e st cn incl = Some r"
  shows "superHierarchies n e st incl ss = Some r
    \<Longrightarrow> superHierarchies (Suc n) e st incl ss = Some r"
proof (induction ss arbitrary: st r)
  case Nil
  then show ?case by simp
next
  case (Cons s ss)
  from Cons.prems obtain x st1 where f: "findClassHierarchy n e st s incl = Some (x, st1)"
    by (auto split: option.splits)
  with Cons.prems obtain hs' st2 where sh: "superHierarchies n e st1 incl ss = Some (hs', st2)"
    by (cases x) (auto split: option.splits)
  from assms[OF f] have f': "findClassHierarchy (Suc n) e st s incl = Some (x, st1)" .
  from Cons.IH[OF sh] have sh': "superHierarchies (Suc n) e st1 incl ss = Some (hs', st2)" .
  from Cons.prems f sh f' sh' show ?case
    by (cases x) (simp_all del: findClassHierarchy.simps)
qed

lemma find_bound_mono:
  "findClassHierarchy n e st cn incl = Some r
     \<Longrightarrow> findClassHierarchy (Suc n) e st cn incl = Some r"
proof (induction n arbitrary: st cn r)
  case 0
  then show ?case by simp
next
  case (Suc n)
  obtain res st1 calls where a: "analyzeClass e st cn = (res, st1, calls)"
    by (cases "analyzeClass e st cn") auto
  show ?case
  proof (cases res)
    case (Inl err)
    with a Suc.prems show ?thesis by auto
  next
    case (Inr classInfo)
    with a Suc.prems obtain hs st2 where
      sh: "superHierarchies n e st1 incl (ci_superclasses classInfo) = Some (hs, st2)"
      by (auto split: option.splits)
    have "superHierarchies (Suc n) e st1 incl (ci_superclasses classInfo) = Some (hs, st2)"
      using Suc.IH sh by (rule supers_bound_mono)
    with a Inr Suc.prems sh show ?thesis by simp
  qed
qed

lemma nodeFor_unresolved:
  "fst (analyzeClass e st s) = Inl err \<Longrightarrow> nodeFor n e st incl s = ClassHierarchy s [] []"
  by (cases n) auto

text \<open>
  The recursion finishes within the bound exactly when the graph is settled within it,
  and then each call gives the expected node, or the error of a name that does not resolve.
\<close>

lemma supers_settle:
  assumes ih: "\<And>st s. cacheGrows e st0 st \<Longrightarrow> settlesWithin n e st0 s \<Longrightarrow>
    \<exists>st'. findClassHierarchy n e st s incl
      = Some (case fst (analyzeClass e st0 s) of
                Inl err \<Rightarrow> Inl err
              | Inr classInfo \<Rightarrow> Inr (nodeFor n e st0 incl s), st')"
  shows "list_all (settlesWithin n e st0) ss \<Longrightarrow> cacheGrows e st0 st \<Longrightarrow>
    \<exists>st'. superHierarchies n e st incl ss = Some (map (nodeFor n e st0 incl) ss, st')"
proof (induction ss arbitrary: st)
  case Nil
  then show ?case by simp
next
  case (Cons s ss)
  from Cons.prems have s: "settlesWithin n e st0 s" and ss: "list_all (settlesWithin n e st0) ss"
    by simp_all
  from ih[OF Cons.prems(2) s] obtain st1 where
    f: "findClassHierarchy n e st s incl
      = Some (case fst (analyzeClass e st0 s) of
                Inl err \<Rightarrow> Inl err
              | Inr classInfo \<Rightarrow> Inr (nodeFor n e st0 incl s), st1)"
    by blast
  have "cacheGrows e st0 st1"
    using Cons.prems(2) find_grows[OF f] by (rule cacheGrows_trans)
  from Cons.IH[OF ss this] obtain st2 where
    sh: "superHierarchies n e st1 incl ss = Some (map (nodeFor n e st0 incl) ss, st2)"
    by blast
  show ?case
  proof (cases "fst (analyzeClass e st0 s)")
    case (Inl err)
    with f sh nodeFor_unresolved[OF Inl, of n incl] show ?thesis by simp
  next
    case (Inr classInfo)
    with f sh show ?thesis by simp
  qed
qed

lemma find_settles:
  "cacheGrows e st0 st \<Longrightarrow> settlesWithin n e st0 s \<Longrightarrow>
    \<exists>st'. findClassHierarchy n e st s incl
      = Some (case fst (analyzeClass e st0 s) of
                Inl err \<Rightarrow> Inl err
              | Inr classInfo \<Rightarrow> Inr (nodeFor n e st0 incl s), st')"
proof (induction n arbitrary: st s)
  case 0
  then show ?case by simp
next
  case (Suc n)
  obtain res st1 calls where a: "analyzeClass e st s = (res, st1, calls)"
    by (cases "analyzeClass e st s") auto
  have r: "fst (analyzeClass e st0 s) = res"
    using analyzeClass_stable[OF Suc.prems(1), of s] a by simp
  have g: "cacheGrows e st0 st1"
    using Suc.prems(1) analyzeClass_grows[OF a] by (rule cacheGrows_trans)
  show ?case
  proof (cases res)
    case (Inl err)
    with a r show ?thesis by simp
  next
    case (Inr classInfo)
    with r Suc.prems(2) have "list_all (settlesWithin n e st0) (ci_superclasses classInfo)"
      by simp
    from supers_settle[of e st0 n incl, OF Suc.IH this g] obtain st2 where
      "superHierarchies n e st1 incl (ci_superclasses classInfo)
        = Some (map (nodeFor n e st0 incl) (ci_superclasses classInfo), st2)"
      by blast
    with a r Inr show ?thesis by simp
  qed
qed

lemma supers_finished:
  assumes ih: "\<And>st s r st'. cacheGrows e st0 st
    \<Longrightarrow> findClassHierarchy n e st s incl = Some (r, st') \<Longrightarrow> settlesWithin n e st0 s"
  shows "superHierarchies n e st incl ss = Some (hs, st') \<Longrightarrow> cacheGrows e st0 st
    \<Longrightarrow> list_all (settlesWithin n e st0) ss"
proof (induction ss arbitrary: st hs)
  case Nil
  then show ?case by simp
next
  case (Cons s ss)
  from Cons.prems(1) obtain r st1 where f: "findClassHierarchy n e st s incl = Some (r, st1)"
    by (auto split: option.splits)
  with Cons.prems(1) obtain hs' where sh: "superHierarchies n e st1 incl ss = Some (hs', st')"
    by (cases r) (auto split: option.splits)
  have "cacheGrows e st0 st1"
    using Cons.prems(2) find_grows[OF f] by (rule cacheGrows_trans)
  from Cons.IH[OF sh this] ih[OF Cons.prems(2) f] show ?case by simp
qed

lemma find_finished:
  "cacheGrows e st0 st \<Longrightarrow> findClassHierarchy n e st s incl = Some (r, st')
     \<Longrightarrow> settlesWithin n e st0 s"
proof (induction n arbitrary: st s r st')
  case 0
  then show ?case by simp
next
  case (Suc n)
  obtain res st1 calls where a: "analyzeClass e st s = (res, st1, calls)"
    by (cases "analyzeClass e st s") auto
  have r: "fst (analyzeClass e st0 s) = res"
    using analyzeClass_stable[OF Suc.prems(1), of s] a by simp
  have g: "cacheGrows e st0 st1"
    using Suc.prems(1) analyzeClass_grows[OF a] by (rule cacheGrows_trans)
  show ?case
  proof (cases res)
    case (Inl err)
    with r show ?thesis by simp
  next
    case (Inr classInfo)
    with a Suc.prems(2) obtain hs where
      "superHierarchies n e st1 incl (ci_superclasses classInfo) = Some (hs, st')"
      by (auto split: option.splits)
    from supers_finished[of e st0 n incl, OF Suc.IH this g] r Inr show ?thesis by simp
  qed
qed

text \<open>In the expected node, an ancestor that does not resolve is a leaf, at every depth.\<close>

lemma leaf_at:
  "settlesWithin n e st c \<Longrightarrow> ancestorAt e st c p = Some s
     \<Longrightarrow> fst (analyzeClass e st s) = Inl err
     \<Longrightarrow> nodeAt (nodeFor n e st incl c) p = Some (ClassHierarchy s [] [])"
proof (induction p arbitrary: n c)
  case Nil
  then show ?case by (simp add: nodeFor_unresolved)
next
  case (Cons i p)
  from Cons.prems(2) obtain classInfo where
    ci: "fst (analyzeClass e st c) = Inr classInfo"
    and i: "i < length (ci_superclasses classInfo)"
    and a: "ancestorAt e st (ci_superclasses classInfo ! i) p = Some s"
    by (auto split: sum.splits if_splits)
  from Cons.prems(1) obtain m where n: "n = Suc m" by (cases n) auto
  with Cons.prems(1) ci have "list_all (settlesWithin m e st) (ci_superclasses classInfo)"
    by simp
  with i have "settlesWithin m e st (ci_superclasses classInfo ! i)"
    by (simp add: list_all_length)
  from Cons.IH[OF this a Cons.prems(3)] n ci i show ?case by simp
qed

text \<open>
  C6. When the class itself resolves, \<open>findClassHierarchy\<close> never throws: within any bound
  on the depth it gives a hierarchy or has not finished. It finishes within the bound
  exactly when the inheritance graph below the class is settled within it. The hierarchy
  is then the expected node of the class: every superclass has its node, in order and at
  every depth, and an ancestor whose own resolution fails with \<open>ClassNotFound\<close> is a leaf
  with no superclasses and no interfaces, wherever it stands. Where the loop over the
  superclasses finishes within a bound, the hierarchy is produced within the next.
\<close>

theorem hierarchy_leaf_fallback:
  assumes "analyzeClass e st cn = (Inr classInfo, st1, calls)"
  shows "(\<forall>err st'. findClassHierarchy n e st cn incl \<noteq> Some (Inl err, st'))
    \<and> (settlesWithin n e st cn \<longrightarrow>
         (\<exists>st'. findClassHierarchy n e st cn incl = Some (Inr (nodeFor n e st incl cn), st')))
    \<and> (\<forall>h st'. findClassHierarchy n e st cn incl = Some (Inr h, st') \<longrightarrow>
          settlesWithin n e st cn \<and> h = nodeFor n e st incl cn
          \<and> h_className h = ci_name classInfo
          \<and> length (h_superclasses h) = length (ci_superclasses classInfo)
          \<and> (\<forall>p s. ancestorAt e st cn p = Some s
                    \<and> fst (analyzeClass e st s) = Inl (ClassNotFound s)
                \<longrightarrow> nodeAt h p = Some (ClassHierarchy s [] [])))
    \<and> (\<forall>hs st2. superHierarchies n e st1 incl (ci_superclasses classInfo) = Some (hs, st2)
          \<longrightarrow> findClassHierarchy (Suc n) e st cn incl
              = Some (Inr (ClassHierarchy (ci_name classInfo) hs
                            (if incl then ci_interfaces classInfo else [])), st2))"
    (is "?never \<and> ?produced \<and> ?shape \<and> ?step")
proof -
  from assms have r: "fst (analyzeClass e st cn) = Inr classInfo" by simp
  have never: ?never
    using assms by (cases n) (auto split: option.splits)
  have produced: ?produced
    using find_settles[OF cacheGrows_refl, of n e st cn incl] r by simp
  have shape: ?shape
  proof (intro allI impI)
    fix h st'
    assume f: "findClassHierarchy n e st cn incl = Some (Inr h, st')"
    from find_finished[OF cacheGrows_refl f] have s: "settlesWithin n e st cn" .
    with produced f have h: "h = nodeFor n e st incl cn" by auto
    from s obtain m where n: "n = Suc m" by (cases n) auto
    have leaves: "\<forall>p s. ancestorAt e st cn p = Some s
                    \<and> fst (analyzeClass e st s) = Inl (ClassNotFound s)
                \<longrightarrow> nodeAt h p = Some (ClassHierarchy s [] [])"
      using leaf_at[OF s] h by blast
    from s h n r leaves
    show "settlesWithin n e st cn \<and> h = nodeFor n e st incl cn
          \<and> h_className h = ci_name classInfo
          \<and> length (h_superclasses h) = length (ci_superclasses classInfo)
          \<and> (\<forall>p s. ancestorAt e st cn p = Some s
                    \<and> fst (analyzeClass e st s) = Inl (ClassNotFound s)
                \<longrightarrow> nodeAt h p = Some (ClassHierarchy s [] []))"
      by simp
  qed
  have step: ?step
    using assms by simp
  from never produced shape step show ?thesis by blast
qed

lemma chain_analyze_child:
  "analyzeClass chainEnv chainRoot ''AChild''
     = (Inr childInfo, chainRoot\<lparr>classCache := [(''AChild'', childInfo)]\<rparr>,
        [Glob ''**/*.h'' ''/src'', Read ''/src/AChild.h'', Read ''/src/AChild.h''])"
  by code_simp

lemma chain_settles:
  "\<not> settlesWithin 2 chainEnv chainRoot ''AChild'' \<and> settlesWithin 3 chainEnv chainRoot ''AChild''"
  by code_simp

lemma chain_node: "nodeFor 3 chainEnv chainRoot True ''AChild'' = chainTree"
  by code_simp

lemma chain_ancestors:
  "ancestorAt chainEnv chainRoot ''AChild'' [0, 0] = Some ''UObject''
   \<and> fst (analyzeClass chainEnv chainRoot ''UObject'') = Inl (ClassNotFound ''UObject'')
   \<and> ancestorAt chainEnv chainRoot ''AChild'' [1] = Some ''UGhost''
   \<and> fst (analyzeClass chainEnv chainRoot ''UGhost'') = Inl (ClassNotFound ''UGhost'')"
  by code_simp

text \<open>
  An instance: \<open>AChild\<close> and its superclass \<open>AParent\<close> resolve, \<open>UGhost\<close> and the
  grandparent \<open>UObject\<close> do not. The graph is settled within three levels and not within
  two, the hierarchy is produced at depth three, and both unresolved names are leaves.
\<close>

theorem hierarchy_leaf_fallback_witness:
  "analyzeClass chainEnv chainRoot ''AChild''
     = (Inr childInfo, chainRoot\<lparr>classCache := [(''AChild'', childInfo)]\<rparr>,
        [Glob ''**/*.h'' ''/src'', Read ''/src/AChild.h'', Read ''/src/AChild.h''])
   \<and> settlesWithin 3 chainEnv chainRoot ''AChild''
   \<and> (\<exists>st'. findClassHierarchy 3 chainEnv chainRoot ''AChild'' True = Some (Inr chainTree, st'))
   \<and> findClassHierarchy 2 chainEnv chainRoot ''AChild'' True = None
   \<and> ancestorAt chainEnv chainRoot ''AChild'' [0, 0] = Some ''UObject''
   \<and> fst (analyzeClass chainEnv chainRoot ''UObject'') = Inl (ClassNotFound ''UObject'')
   \<and> nodeAt chainTree [0, 0] = Some (ClassHierarchy ''UObject'' [] [])
   \<and> ancestorAt chainEnv chainRoot ''AChild'' [1] = Some ''UGhost''
   \<and> fst (analyzeClass chainEnv chainRoot ''UGhost'') = Inl (ClassNotFound ''UGhost'')
   \<and> nodeAt chainTree [1] = Some (ClassHierarchy ''UGhost'' [] [])"
proof -
  note t3 = hierarchy_leaf_fallback[OF chain_analyze_child, of 3 True]
  note t2 = hierarchy_leaf_fallback[OF chain_analyze_child, of 2 True]
  from t3 chain_settles chain_node obtain st' where
    f: "findClassHierarchy 3 chainEnv chainRoot ''AChild'' True = Some (Inr chainTree, st')"
    by auto
  from t3 f chain_ancestors
  have l: "nodeAt chainTree [0, 0] = Some (ClassHierarchy ''UObject'' [] [])"
    "nodeAt chainTree [1] = Some (ClassHierarchy ''UGhost'' [] [])"
    by blast+
  have n: "findClassHierarchy 2 chainEnv chainRoot ''AChild'' True = None"
  proof (cases "findClassHierarchy 2 chainEnv chainRoot ''AChild'' True")
    case None
    then show ?thesis .
  next
    case (Some x)
    obtain r st2 where x: "x = (r, st2)" by (cases x) auto
    with Some t2 chain_settles show ?thesis by (cases r) auto
  qed
  from chain_analyze_child chain_settles f l n chain_ancestors show ?thesis by blast
qed

section \<open>Properties of the searches\<close>






lemma searchLineAt_line:
  "r \<in> set (searchLineAt f q incl ls i) \<Longrightarrow> ref_line r = i + 1 \<and> ref_file r = f"
  by (auto simp: searchLineAt_def split: if_splits option.splits)

lemma searchLineAt_nonempty:
  "(searchLineAt f q incl ls i \<noteq> [])
     = (reTest flagI q (ls ! i) \<and> (incl \<or> \<not> isCommentLine (ls ! i)))"
  by (auto simp: searchLineAt_def reTest_def split: option.splits)

lemma searchLines_set:
  "set (searchLines f q incl ls) = (\<Union>i \<in> {0..<length ls}. set (searchLineAt f q incl ls i))"
  by (simp add: searchLines_def)

lemma searchLines_line:
  assumes "i < length ls"
  shows "(\<exists>r \<in> set (searchLines f q incl ls). ref_line r = i + 1)
     = (reTest flagI q (ls ! i) \<and> (incl \<or> \<not> isCommentLine (ls ! i)))"
proof
  assume "\<exists>r \<in> set (searchLines f q incl ls). ref_line r = i + 1"
  then obtain r j where
    j: "j < length ls" "r \<in> set (searchLineAt f q incl ls j)" "ref_line r = i + 1"
    by (auto simp: searchLines_set)
  then have "j = i" using searchLineAt_line by fastforce
  with j have "searchLineAt f q incl ls i \<noteq> []" by auto
  then show "reTest flagI q (ls ! i) \<and> (incl \<or> \<not> isCommentLine (ls ! i))"
    by (simp add: searchLineAt_nonempty)
next
  assume "reTest flagI q (ls ! i) \<and> (incl \<or> \<not> isCommentLine (ls ! i))"
  then have "searchLineAt f q incl ls i \<noteq> []" by (simp add: searchLineAt_nonempty)
  then obtain r where r: "r \<in> set (searchLineAt f q incl ls i)"
    by (cases "searchLineAt f q incl ls i") auto
  then have "ref_line r = i + 1" using searchLineAt_line by blast
  with r assms show "\<exists>r \<in> set (searchLines f q incl ls). ref_line r = i + 1"
    by (auto simp: searchLines_set)
qed

lemma searchCode_no_comment_lines:
  assumes "searchCode e st q fp False = Inr ms" and "r \<in> set ms"
  shows "\<exists>content. readFileSync e (ref_file r) = Some content
          \<and> ref_line r - 1 < length (splitOn nl content)
          \<and> \<not> isCommentLine (splitOn nl content ! (ref_line r - 1))"
proof -
  from assms have "r \<in> set (allMatches e q False (codeSearchFiles e st fp))"
    by (auto simp: searchCode_def split: if_splits dest: in_set_takeD)
  then obtain f where f: "r \<in> set (searchFile e q False f)"
    by (auto simp: allMatches_def)
  then obtain content where c: "readFileSync e f = Some content"
      and r: "r \<in> set (searchLines f q False (splitOn nl content))"
    by (cases "readFileSync e f") (auto simp: searchFile_def)
  then obtain i where i: "i < length (splitOn nl content)"
      and ri: "r \<in> set (searchLineAt f q False (splitOn nl content) i)"
    by (auto simp: searchLines_set)
  from ri have l: "ref_line r = i + 1" "ref_file r = f" using searchLineAt_line by blast+
  from ri have "searchLineAt f q False (splitOn nl content) i \<noteq> []" by auto
  then have "\<not> isCommentLine (splitOn nl content ! i)"
    by (simp add: searchLineAt_nonempty)
  with c i l show ?thesis by simp
qed









text \<open>With a custom root set, \<open>findReferences\<close> scans that root, whatever the engine root is.\<close>

lemma findReferences_custom_root:
  assumes "initialized st" and "customPath st = Some c" and "c \<noteq> []"
  shows "findReferences e st identifier k
     = Inr (take 100 (allReferences e identifier (referenceFiles e c)))"
  using assms by (simp add: findReferences_def referenceSearchPath_def configured_def)

text \<open>
  C3 fails on the code. \<open>findReferences\<close> scans one root, the custom root when it is set:
  with both roots configured, the identifier \<open>UEngine\<close>, which occurs only under the
  engine root, has no reference, while \<open>searchCode\<close>, which scans every configured root,
  finds the line.
\<close>

theorem references_single_root:
  "findReferences demoEnv bothRoots ''UEngine'' None = Inr []
   \<and> searchCode demoEnv bothRoots (identifierPattern ''UEngine'') ''*.{h,cpp}'' True
     = Inr [\<lparr>ref_file = ''/ue/Engine/Source/Runtime/Engine/UEngine.h'', ref_line = 1,
              ref_column = 18,
              ref_context = ''class ENGINE_API UEngine : public UObject'' @ [nl] @ ''{''
                 @ [nl] @ ''};''\<rparr>]"
  by code_simp



text \<open>
  C8. In the scan of the lines of a file, a line gives a match exactly when the query
  matches it and either comments are included or the trimmed line does not begin with
  \<open>//\<close> or \<open>/*\<close>: with the flag false a comment line gives nothing, also when it matches,
  a matching line that is no comment line is reported, and with the flag true nothing is
  skipped. With the flag false no entry that \<open>searchCode\<close> returns is for a comment line.
\<close>

theorem comment_skip:
  "(i < length ls \<longrightarrow>
      (\<exists>r \<in> set (searchLines f q incl ls). ref_line r = i + 1)
        = (reTest flagI q (ls ! i) \<and> (incl \<or> \<not> isCommentLine (ls ! i))))
   \<and> (searchCode e st q filePattern False = Inr ms \<and> m \<in> set ms \<longrightarrow>
        (\<exists>content. readFileSync e (ref_file m) = Some content
           \<and> ref_line m - 1 < length (splitOn nl content)
           \<and> \<not> isCommentLine (splitOn nl content ! (ref_line m - 1))))"
  using searchLines_line[of i ls f q incl] searchCode_no_comment_lines[of e st q filePattern ms m]
  by blast

lemma comment_line_facts:
  "isCommentLine (commentLines ! 0) \<and> reTest flagI (lit ''afoo'') (commentLines ! 0)
   \<and> \<not> isCommentLine (commentLines ! 1) \<and> reTest flagI (lit ''afoo'') (commentLines ! 1)"
  by code_simp

lemma demo_search:
  "searchCode demoEnv customOnly (lit ''afoo'') ''*.{h,cpp}'' False
     = Inr [\<lparr>ref_file = ''/proj/AFoo.h'', ref_line = 2, ref_column = 18,
              ref_context = fooHeader\<rparr>,
            \<lparr>ref_file = ''/proj/Foo.cpp'', ref_line = 2, ref_column = 1,
              ref_context = joinWith [nl] commentLines\<rparr>]"
  by code_simp

text \<open>
  An instance: both lines of \<open>/proj/Foo.cpp\<close> match \<open>afoo\<close>, the first is a comment; with
  the flag false only the second is reported, with the flag true both are.
\<close>

theorem comment_skip_witness:
  "isCommentLine (commentLines ! 0) \<and> reTest flagI (lit ''afoo'') (commentLines ! 0)
   \<and> \<not> isCommentLine (commentLines ! 1) \<and> reTest flagI (lit ''afoo'') (commentLines ! 1)
   \<and> \<not> (\<exists>r \<in> set (searchLines ''/proj/Foo.cpp'' (lit ''afoo'') False commentLines).
          ref_line r = 0 + 1)
   \<and> (\<exists>r \<in> set (searchLines ''/proj/Foo.cpp'' (lit ''afoo'') False commentLines).
          ref_line r = 1 + 1)
   \<and> (\<exists>r \<in> set (searchLines ''/proj/Foo.cpp'' (lit ''afoo'') True commentLines).
          ref_line r = 0 + 1)
   \<and> searchCode demoEnv customOnly (lit ''afoo'') ''*.{h,cpp}'' False
     = Inr [\<lparr>ref_file = ''/proj/AFoo.h'', ref_line = 2, ref_column = 18,
              ref_context = fooHeader\<rparr>,
            \<lparr>ref_file = ''/proj/Foo.cpp'', ref_line = 2, ref_column = 1,
              ref_context = joinWith [nl] commentLines\<rparr>]
   \<and> (\<exists>content. readFileSync demoEnv ''/proj/Foo.cpp'' = Some content
         \<and> 2 - 1 < length (splitOn nl content)
         \<and> \<not> isCommentLine (splitOn nl content ! (2 - 1)))"
proof -
  have l: "0 < length commentLines" "1 < length commentLines"
    by (simp_all add: commentLines_def)
  let ?m = "\<lparr>ref_file = ''/proj/Foo.cpp'', ref_line = 2, ref_column = 1,
              ref_context = joinWith [nl] commentLines\<rparr>"
  have lines: "(\<not> (\<exists>r \<in> set (searchLines ''/proj/Foo.cpp'' (lit ''afoo'') False commentLines).
          ref_line r = 0 + 1))
   \<and> (\<exists>r \<in> set (searchLines ''/proj/Foo.cpp'' (lit ''afoo'') False commentLines).
          ref_line r = 1 + 1)
   \<and> (\<exists>r \<in> set (searchLines ''/proj/Foo.cpp'' (lit ''afoo'') True commentLines).
          ref_line r = 0 + 1)"
    using comment_skip[of 0 commentLines "''/proj/Foo.cpp''" "lit ''afoo''" False]
      comment_skip[of 1 commentLines "''/proj/Foo.cpp''" "lit ''afoo''" False]
      comment_skip[of 0 commentLines "''/proj/Foo.cpp''" "lit ''afoo''" True]
      l comment_line_facts
    by blast
  let ?h = "\<lparr>ref_file = ''/proj/AFoo.h'', ref_line = 2, ref_column = 18,
              ref_context = fooHeader\<rparr>"
  have "\<exists>content. readFileSync demoEnv (ref_file ?m) = Some content
         \<and> ref_line ?m - 1 < length (splitOn nl content)
         \<and> \<not> isCommentLine (splitOn nl content ! (ref_line ?m - 1))"
    using comment_skip[where e = demoEnv and st = customOnly and q = "lit ''afoo''"
        and filePattern = "''*.{h,cpp}''" and m = ?m and ms = "[?h, ?m]", THEN conjunct2]
      demo_search
    by simp
  then have api: "\<exists>content. readFileSync demoEnv ''/proj/Foo.cpp'' = Some content
         \<and> 2 - 1 < length (splitOn nl content)
         \<and> \<not> isCommentLine (splitOn nl content ! (2 - 1))"
    by simp
  from lines api comment_line_facts demo_search show ?thesis by blast
qed

text \<open>
  C9. The symbol kind passed to \<open>findReferences\<close> has no influence on the result: with
  \<open>class\<close>, \<open>function\<close>, \<open>variable\<close> or no kind at all, the same analyzer and identifier
  give the same references or the same error.
\<close>

theorem kind_ignored:
  "findReferences e st identifier k = findReferences e st identifier None
   \<and> findReferences e st identifier (Some ClassSymbol)
     = findReferences e st identifier (Some FunctionSymbol)
   \<and> findReferences e st identifier (Some FunctionSymbol)
     = findReferences e st identifier (Some VariableSymbol)"
  by (simp add: findReferences_def)

section \<open>Properties of the relevance score\<close>

lemma scoreTerms_sum:
  "scoreTerms apiRef (apiText apiRef) ts score
     = score + sum_list (map (specTermScore apiRef) ts)"
  by (induction ts arbitrary: score) (simp_all add: specTermScore_def Let_def)

text \<open>
  C4, as amended. The relevance score of an API entry for a list of search terms is the
  sum over the terms of: 10 if the term occurs in the lowercase class name, plus 5 if it
  occurs in the lowercase category, plus 5 if it occurs in the lowercase module, plus 2 if
  it occurs in the lowercase text of name, description, category, module and related
  classes. The contributions add up, so one term contributes at most 22 points.
\<close>

theorem relevance_score:
  "calculateApiRelevance apiRef ts = sum_list (map (specTermScore apiRef) ts)
   \<and> specTermScore apiRef t \<le> 22"
  by (simp add: calculateApiRelevance_def scoreTerms_sum specTermScore_def)

lemma demo_analyze_engine: "fst (analyzeClass demoEnv bothRoots ''UEngine'') = Inr engineInfo"
  by code_simp

lemma demo_engine_reference:
  "fst (getOrCreateApiReference demoEnv bothRoots engineInfo) = engineRef"
  by code_simp

lemma demo_engine_score: "calculateApiRelevance engineRef [''e''] = 22"
  by code_simp

text \<open>
  The bound of 19 in the claim as stated fails: the class \<open>UEngine\<close> of the module
  \<open>Engine\<close> has the category \<open>Object\<close>, and the term \<open>e\<close> occurs in all four texts.
\<close>

theorem relevance_above_19:
  "fst (analyzeClass demoEnv bothRoots ''UEngine'') = Inr engineInfo
   \<and> fst (getOrCreateApiReference demoEnv bothRoots engineInfo) = engineRef
   \<and> calculateApiRelevance engineRef [''e''] = 22
   \<and> \<not> calculateApiRelevance engineRef [''e''] \<le> 19"
  using demo_analyze_engine demo_engine_reference demo_engine_score by simp

section \<open>Properties of subsystem analysis\<close>

text \<open>
  C10. Without an engine root \<open>analyzeSubsystem\<close> throws for every subsystem name, also
  when a custom root is configured and the analyzer is initialized: configuring only a
  custom root leaves subsystem analysis throwing \<open>Unreal Engine path not configured\<close>.
\<close>

theorem subsystem_requires_engine_root:
  "(unrealPath st = None \<longrightarrow>
      analyzeSubsystem e st subsystem
        = Inl (if initialized st then UnrealPathNotConfigured else AnalyzerNotInitialized))
   \<and> (initializeCustomCodebase e path newAnalyzer = Inr st' \<longrightarrow>
        analyzeSubsystem e st' subsystem = Inl UnrealPathNotConfigured)"
  by (auto simp: analyzeSubsystem_def configured_def initializeCustomCodebase_def
      newAnalyzer_def split: if_splits)

text \<open>An instance: the analyzer with the custom root \<open>/proj\<close> only, and the subsystem \<open>Rendering\<close>.\<close>

theorem subsystem_requires_engine_root_witness:
  "unrealPath customOnly = None \<and> initialized customOnly
   \<and> initializeCustomCodebase demoEnv ''/proj'' newAnalyzer = Inr customOnly
   \<and> analyzeSubsystem demoEnv customOnly ''Rendering'' = Inl UnrealPathNotConfigured"
proof -
  have a: "unrealPath customOnly = None" "initialized customOnly"
    by (simp_all add: customOnly_def newAnalyzer_def)
  have b: "initializeCustomCodebase demoEnv ''/proj'' newAnalyzer = Inr customOnly"
    by (simp add: initializeCustomCodebase_def demoEnv_def customOnly_def)
  from subsystem_requires_engine_root[of customOnly demoEnv "''Rendering''" "''/proj''" customOnly]
    a b show ?thesis by simp
qed

end
